theory Spec2Isabelle
  imports Main
begin

section \<open>Values, exceptions and results\<close>

text \<open>
  Python \<open>bytes\<close> are lists of bytes; descriptors, signals, process ids and exit codes
  are Python integers.  An operation that may raise returns a \<open>res\<close> together with the
  state it leaves behind: the effects made before a \<open>raise\<close> stay.
\<close>

type_synonym bytes = string

datatype exn = ProcessLookupError | TimeoutError | CancelledError | InvalidStateError
  | AssertionError | AttributeError | KeyError int | OSError nat

datatype 'a res = Ok 'a | Err exn

section \<open>Collaborators: futures, stream readers, the transport\<close>

subsection \<open>futures.Future\<close>

datatype fstate = Pending | Result "int option" | Exception exn

datatype callback = Set_returncode

record future =
  fut_state :: fstate
  fut_callbacks :: "callback list"

record fstore =
  slot :: "nat \<Rightarrow> future"
  fresh :: nat

text \<open>
  Modelled from the spec: \<open>futures.Future\<close> is the completion primitive of section 6,
  "a single-assignment value settable at most once".  A future is an object in a store;
  \<open>Future\<close> allocates a pending one.  Settling a future that is already settled fails
  with \<open>InvalidStateError\<close>; \<open>fut_result\<close> reads the value or re-raises the stored error.
  The value of a future is \<open>None\<close> or an integer (an exit code).
\<close>

definition Future :: "fstore \<Rightarrow> nat \<times> fstore" where
  "Future fs =
     (fresh fs,
      fs\<lparr>slot := (slot fs)(fresh fs := \<lparr>fut_state = Pending, fut_callbacks = []\<rparr>),
         fresh := Suc (fresh fs)\<rparr>)"

definition fut_done :: "fstore \<Rightarrow> nat \<Rightarrow> bool" where
  "fut_done fs w = (fut_state (slot fs w) \<noteq> Pending)"

definition settle :: "nat \<Rightarrow> fstate \<Rightarrow> fstore \<Rightarrow> fstore" where
  "settle w st fs = fs\<lparr>slot := (slot fs)(w := (slot fs w)\<lparr>fut_state := st\<rparr>)\<rparr>"

definition fut_set_result :: "nat \<Rightarrow> int option \<Rightarrow> fstore \<Rightarrow> unit res \<times> fstore" where
  "fut_set_result w v fs =
     (if fut_done fs w then (Err InvalidStateError, fs) else (Ok (), settle w (Result v) fs))"

definition fut_set_exception :: "nat \<Rightarrow> exn \<Rightarrow> fstore \<Rightarrow> unit res \<times> fstore" where
  "fut_set_exception w e fs =
     (if fut_done fs w then (Err InvalidStateError, fs) else (Ok (), settle w (Exception e) fs))"

definition fut_result :: "fstore \<Rightarrow> nat \<Rightarrow> int option res" where
  "fut_result fs w =
     (case fut_state (slot fs w) of
        Pending \<Rightarrow> Err InvalidStateError
      | Result v \<Rightarrow> Ok v
      | Exception e \<Rightarrow> Err e)"

definition add_done_callback :: "nat \<Rightarrow> callback \<Rightarrow> fstore \<Rightarrow> fstore" where
  "add_done_callback w cb fs =
     fs\<lparr>slot := (slot fs)(w := (slot fs w)\<lparr>fut_callbacks := fut_callbacks (slot fs w) @ [cb]\<rparr>)\<rparr>"

definition no_futures :: fstore where
  "no_futures = \<lparr>slot = (\<lambda>_. \<lparr>fut_state = Pending, fut_callbacks = []\<rparr>), fresh = 0\<rparr>"

subsection \<open>streams.StreamReader\<close>

datatype terminal = At_eof | Errored exn

record StreamReader =
  r_limit :: nat
  r_buffer :: bytes
  r_terminal :: "terminal option"

text \<open>
  Modelled from the spec: \<open>streams.StreamReader\<close> is the BufferedReader of sections 3
  and 4.3, "an append-only byte buffer plus a closed/errored terminal marker; once
  terminal, further feed calls are no-ops".  \<open>set_exception\<close> is the spec's
  \<open>feed_error\<close>.
\<close>

definition new_StreamReader :: "nat \<Rightarrow> StreamReader" where
  "new_StreamReader lim = \<lparr>r_limit = lim, r_buffer = [], r_terminal = None\<rparr>"

definition feed_data :: "bytes \<Rightarrow> StreamReader \<Rightarrow> StreamReader" where
  "feed_data data r = (if r_terminal r = None then r\<lparr>r_buffer := r_buffer r @ data\<rparr> else r)"

definition feed_eof :: "StreamReader \<Rightarrow> StreamReader" where
  "feed_eof r = (if r_terminal r = None then r\<lparr>r_terminal := Some At_eof\<rparr> else r)"

definition set_exception :: "exn \<Rightarrow> StreamReader \<Rightarrow> StreamReader" where
  "set_exception e r = (if r_terminal r = None then r\<lparr>r_terminal := Some (Errored e)\<rparr> else r)"

record rstore =
  cell :: "nat \<Rightarrow> StreamReader"
  next_cell :: nat

definition alloc_reader :: "nat \<Rightarrow> rstore \<Rightarrow> nat \<times> rstore" where
  "alloc_reader lim rs =
     (next_cell rs,
      rs\<lparr>cell := (cell rs)(next_cell rs := new_StreamReader lim), next_cell := Suc (next_cell rs)\<rparr>)"

definition on_reader :: "nat \<Rightarrow> (StreamReader \<Rightarrow> StreamReader) \<Rightarrow> rstore \<Rightarrow> rstore" where
  "on_reader a f rs = rs\<lparr>cell := (cell rs)(a := f (cell rs a))\<rparr>"

definition no_readers :: rstore where
  "no_readers = \<lparr>cell = (\<lambda>_. new_StreamReader 0), next_cell = 0\<rparr>"

subsection \<open>The process transport\<close>

datatype tcall = Send_signal int | Terminate | Kill | Close | Pipe_write int bytes | Pipe_close int

record transport =
  t_pid :: int
  t_returncode :: "int option"
  t_pipes :: "int list"
  t_calls :: "tcall list"

text \<open>
  Modelled from the spec: the transport collaborator of section 6 (\<open>pid()\<close>,
  \<open>exit_code()\<close>, \<open>pipe_for(fd)\<close>, \<open>send_signal\<close>, \<open>terminate\<close>, \<open>kill\<close>,
  \<open>close\<close>), as the instrumented fake of section 8: it answers the three queries from
  its fields and records every call made into it, and into its pipe transports, in the
  order made.  \<open>t_pipes\<close> lists the descriptors that have a pipe transport.
\<close>

definition get_pid :: "transport \<Rightarrow> int" where
  "get_pid t = t_pid t"

definition get_returncode :: "transport \<Rightarrow> int option" where
  "get_returncode t = t_returncode t"

definition get_pipe_transport :: "transport \<Rightarrow> int \<Rightarrow> int option" where
  "get_pipe_transport t fd = (if fd \<in> set (t_pipes t) then Some fd else None)"

definition called :: "tcall \<Rightarrow> transport \<Rightarrow> transport" where
  "called c t = t\<lparr>t_calls := t_calls t @ [c]\<rparr>"

section \<open>subprocess\_stream.py\<close>

subsection \<open>WriteSubprocessPipeStreamProto\<close>

record write_proto =
  paused :: bool
  drain_waiter :: "nat option"

definition WriteSubprocessPipeStreamProto :: write_proto where
  "WriteSubprocessPipeStreamProto = \<lparr>paused = False, drain_waiter = None\<rparr>"

definition wp_connection_lost ::
  "exn option \<Rightarrow> write_proto \<Rightarrow> fstore \<Rightarrow> write_proto \<times> fstore" where
  "wp_connection_lost exc p fs =
     (if paused p then
        (case drain_waiter p of
           None \<Rightarrow> (p, fs)
         | Some waiter \<Rightarrow>
             (p\<lparr>drain_waiter := None\<rparr>,
              if \<not> fut_done fs waiter then
                (case exc of
                   None \<Rightarrow> snd (fut_set_result waiter None fs)
                 | Some e \<Rightarrow> snd (fut_set_exception waiter e fs))
              else fs))
      else (p, fs))"

definition pause_writing :: "write_proto \<Rightarrow> unit res \<times> write_proto" where
  "pause_writing p = (if paused p then (Err AssertionError, p) else (Ok (), p\<lparr>paused := True\<rparr>))"

definition resume_writing ::
  "write_proto \<Rightarrow> fstore \<Rightarrow> unit res \<times> write_proto \<times> fstore" where
  "resume_writing p fs =
     (if \<not> paused p then (Err AssertionError, p, fs)
      else
        (case drain_waiter p of
           None \<Rightarrow> (Ok (), p\<lparr>paused := False\<rparr>, fs)
         | Some waiter \<Rightarrow>
             (Ok (), p\<lparr>paused := False, drain_waiter := None\<rparr>,
              if \<not> fut_done fs waiter then snd (fut_set_result waiter None fs) else fs)))"

text \<open>
  Modelled from the spec: \<open>drain()\<close> of the flow-controlled writer (section 4.2), which
  "suspends iff paused is true" and "returns immediately if not paused"; the waiter slot
  is "single-slot, not a queue -- a second concurrent drain call is a usage error".
  The result is \<open>Ok None\<close> when drain returns at once and \<open>Ok (Some w)\<close> when the caller
  suspends on the new waiter \<open>w\<close>.
\<close>

definition drain :: "write_proto \<Rightarrow> fstore \<Rightarrow> nat option res \<times> write_proto \<times> fstore" where
  "drain p fs =
     (if \<not> paused p then (Ok None, p, fs)
      else
        (case drain_waiter p of
           Some w \<Rightarrow> (Err AssertionError, p, fs)
         | None \<Rightarrow>
             (let (w, fs') = Future fs in (Ok (Some w), p\<lparr>drain_waiter := Some w\<rparr>, fs'))))"

subsection \<open>ReadSubprocessPipeStreamProto\<close>

definition rp_connection_lost :: "exn option \<Rightarrow> StreamReader \<Rightarrow> StreamReader" where
  "rp_connection_lost exc r = (case exc of None \<Rightarrow> feed_eof r | Some e \<Rightarrow> set_exception e r)"

definition rp_data_received :: "bytes \<Rightarrow> StreamReader \<Rightarrow> StreamReader" where
  "rp_data_received data r = feed_data data r"

definition rp_eof_received :: "StreamReader \<Rightarrow> StreamReader" where
  "rp_eof_received r = feed_eof r"

subsection \<open>SubprocessStreamProtocol (one protocol per pipe)\<close>

text \<open>
  The table \<open>_pipes\<close> is created empty by \<open>__init__\<close> and filled outside this file; it is
  a parameter here, a dictionary from descriptors to the read-pipe protocols, each given
  by the state of its stream reader.  A missing key raises \<open>KeyError\<close>.
\<close>

type_synonym pipes = "int \<rightharpoonup> StreamReader"

definition sp_pipe_data_received :: "int \<Rightarrow> bytes \<Rightarrow> pipes \<Rightarrow> unit res \<times> pipes" where
  "sp_pipe_data_received fd data ps =
     (case ps fd of
        None \<Rightarrow> (Err (KeyError fd), ps)
      | Some pipe \<Rightarrow> (Ok (), ps(fd \<mapsto> rp_data_received data pipe)))"

definition sp_pipe_connection_lost :: "int \<Rightarrow> exn option \<Rightarrow> pipes \<Rightarrow> unit res \<times> pipes" where
  "sp_pipe_connection_lost fd exc ps =
     (case ps fd of
        None \<Rightarrow> (Err (KeyError fd), ps)
      | Some pipe \<Rightarrow> (Ok (), ps(fd \<mapsto> rp_connection_lost exc pipe)))"

section \<open>subprocess.py\<close>

subsection \<open>State\<close>

text \<open>
  \<open>p_stdin\<close> is the \<open>StreamWriter\<close> over the pipe transport of the descriptor it names;
  \<open>p_stdout\<close> and \<open>p_stderr\<close> are references to stream readers in the reader store;
  \<open>p_waiter\<close> and the elements of \<open>p_waiters\<close> are references to futures;
  \<open>p_transport\<close> tells whether \<open>_transport\<close> has been set.  \<open>p_flow\<close> holds the fields
  that the protocol inherits from \<open>streams.FlowControlMixin\<close>.
\<close>

record protocol =
  p_limit :: nat
  p_stdin :: "int option"
  p_stdout :: "nat option"
  p_stderr :: "nat option"
  p_waiter :: nat
  p_waiters :: "nat list"
  p_transport :: bool
  p_flow :: write_proto

record conn =
  transport :: transport
  protocol :: protocol
  futures :: fstore
  readers :: rstore

text \<open>
  The handle.  \<open>stdin\<close>, \<open>stdout\<close> and \<open>stderr\<close> are copies of the protocol's
  references: they name the same writer and the same reader objects.
\<close>

record popen =
  pid :: int
  returncode :: "int option"
  dead :: bool
  stdin :: "int option"
  stdout :: "nat option"
  stderr :: "nat option"

record sys = conn +
  proc :: popen

datatype ('pc, 'a) step = Finished 'a | Raised exn | Suspended 'pc

subsection \<open>SubprocessStreamProtocol (one protocol per process)\<close>

text \<open>
  Modelled from the spec: \<open>streams.FlowControlMixin\<close>, the flow-control contract of
  section 4.2.  Its fields start as those of \<open>WriteSubprocessPipeStreamProto\<close>, and its
  \<open>connection_lost\<close>, \<open>pause_writing\<close> and \<open>resume_writing\<close> are the methods of that
  class, applied to \<open>p_flow\<close>.
\<close>

definition SubprocessStreamProtocol :: "nat \<Rightarrow> transport \<Rightarrow> conn" where
  "SubprocessStreamProtocol lim t =
     (let (w, fs) = Future no_futures in
      \<lparr>transport = t,
       protocol = \<lparr>p_limit = lim, p_stdin = None, p_stdout = None, p_stderr = None,
                   p_waiter = w, p_waiters = [], p_transport = False,
                   p_flow = WriteSubprocessPipeStreamProto\<rparr>,
       futures = fs,
       readers = no_readers\<rparr>)"

definition new_reader :: "conn \<Rightarrow> nat \<times> conn" where
  "new_reader c =
     (let (a, rs) = alloc_reader (p_limit (protocol c)) (readers c) in (a, c\<lparr>readers := rs\<rparr>))"

definition connection_made :: "conn \<Rightarrow> unit res \<times> conn" where
  "connection_made c0 =
     (let c1 = c0\<lparr>protocol := (protocol c0)\<lparr>p_transport := True\<rparr>\<rparr>;
          c2 = (if get_pipe_transport (transport c1) 1 \<noteq> None
                then (let (a, c) = new_reader c1 in c\<lparr>protocol := (protocol c)\<lparr>p_stdout := Some a\<rparr>\<rparr>)
                else c1);
          c3 = (if get_pipe_transport (transport c2) 2 \<noteq> None
                then (let (a, c) = new_reader c2 in c\<lparr>protocol := (protocol c)\<lparr>p_stderr := Some a\<rparr>\<rparr>)
                else c2);
          c4 = (case get_pipe_transport (transport c3) 0 of
                  None \<Rightarrow> c3
                | Some pipe \<Rightarrow> c3\<lparr>protocol := (protocol c3)\<lparr>p_stdin := Some pipe\<rparr>\<rparr>);
          (r, fs) = fut_set_result (p_waiter (protocol c4)) None (futures c4)
      in (r, c4\<lparr>futures := fs\<rparr>))"

definition pipe_data_received :: "int \<Rightarrow> bytes \<Rightarrow> sys \<Rightarrow> sys" where
  "pipe_data_received fd data s =
     (let reader = (if fd = 1 then p_stdout (protocol s)
                    else if fd = 2 then p_stderr (protocol s)
                    else None)
      in case reader of
           None \<Rightarrow> s
         | Some a \<Rightarrow> s\<lparr>readers := on_reader a (feed_data data) (readers s)\<rparr>)"

text \<open>
  Modelled from the spec: \<open>close()\<close> of the stream writer forwards to its pipe transport,
  where the call is recorded.
\<close>

definition writer_close :: "int \<Rightarrow> sys \<Rightarrow> sys" where
  "writer_close fd s = s\<lparr>transport := called (Pipe_close fd) (transport s)\<rparr>"

definition connection_lost :: "exn option \<Rightarrow> sys \<Rightarrow> sys" where
  "connection_lost exc s =
     (let (f, fs) = wp_connection_lost exc (p_flow (protocol s)) (futures s)
      in s\<lparr>protocol := (protocol s)\<lparr>p_flow := f\<rparr>, futures := fs\<rparr>)"

definition pipe_connection_lost :: "int \<Rightarrow> exn option \<Rightarrow> sys \<Rightarrow> sys" where
  "pipe_connection_lost fd exc s =
     (if fd = 0 then
        connection_lost exc
          (case p_stdin (protocol s) of None \<Rightarrow> s | Some pipe \<Rightarrow> writer_close pipe s)
      else
        (let reader = (if fd = 1 then p_stdout (protocol s)
                       else if fd = 2 then p_stderr (protocol s)
                       else None)
         in case reader of
              None \<Rightarrow> s
            | Some a \<Rightarrow>
                (case exc of
                   None \<Rightarrow> s\<lparr>readers := on_reader a feed_eof (readers s)\<rparr>
                 | Some e \<Rightarrow> s\<lparr>readers := on_reader a (set_exception e) (readers s)\<rparr>)))"

subsection \<open>Settling a future of the process: the done-callbacks run\<close>

definition set_returncode :: "int option \<Rightarrow> sys \<Rightarrow> sys" where
  "set_returncode v s = s\<lparr>proc := (proc s)\<lparr>returncode := v, dead := True\<rparr>\<rparr>"

text \<open>
  Modelled from the spec: the done-callbacks of a future run when it is settled; section 4.4
  puts the dead flag's change at the process-exited event ("dead flag set here").  The
  one callback the source registers is \<open>Popen._set_returncode\<close>, which reads the
  future's result.
\<close>

definition run_callback :: "int option \<Rightarrow> callback \<Rightarrow> sys \<Rightarrow> sys" where
  "run_callback v cb s = (case cb of Set_returncode \<Rightarrow> set_returncode v s)"

definition set_result :: "nat \<Rightarrow> int option \<Rightarrow> sys \<Rightarrow> unit res \<times> sys" where
  "set_result w v s =
     (case fut_set_result w v (futures s) of
        (Err e, fs) \<Rightarrow> (Err e, s)
      | (Ok u, fs) \<Rightarrow> (Ok (), fold (run_callback v) (fut_callbacks (slot fs w)) (s\<lparr>futures := fs\<rparr>)))"

lemma fold_run_callback_conn:
  "protocol (fold (run_callback v) cbs s) = protocol s
   \<and> transport (fold (run_callback v) cbs s) = transport s
   \<and> futures (fold (run_callback v) cbs s) = futures s
   \<and> readers (fold (run_callback v) cbs s) = readers s"
  by (induction cbs arbitrary: s) (auto simp: run_callback_def set_returncode_def split: callback.splits)

lemma set_result_protocol: "protocol (snd (set_result w v s)) = protocol s"
  by (simp add: set_result_def fold_run_callback_conn split: prod.splits res.splits)

function process_exited_loop :: "int option \<Rightarrow> sys \<Rightarrow> unit res \<times> sys" where
  "process_exited_loop rc s =
     (case p_waiters (protocol s) of
        [] \<Rightarrow> (Ok (), s)
      | waiter # rest \<Rightarrow>
          (case set_result waiter rc (s\<lparr>protocol := (protocol s)\<lparr>p_waiters := rest\<rparr>\<rparr>) of
             (Err e, s') \<Rightarrow> (Err e, s')
           | (Ok u, s') \<Rightarrow> process_exited_loop rc s'))"
  by pat_completeness auto
termination
  apply (relation "measure (\<lambda>(rc, s). length (p_waiters (protocol s)))")
   apply simp
  subgoal for rc s waiter rest x y u
    using set_result_protocol[of waiter rc "s\<lparr>protocol := (protocol s)\<lparr>p_waiters := rest\<rparr>\<rparr>"]
    by (cases "set_result waiter rc (s\<lparr>protocol := (protocol s)\<lparr>p_waiters := rest\<rparr>\<rparr>)") auto
  done

declare process_exited_loop.simps [simp del]

definition process_exited :: "sys \<Rightarrow> unit res \<times> sys" where
  "process_exited s =
     (if \<not> p_transport (protocol s) then (Err AttributeError, s)
      else process_exited_loop (get_returncode (transport s)) s)"

subsection \<open>Popen\<close>

definition Popen :: "conn \<Rightarrow> sys" where
  "Popen c =
     (let rc = get_returncode (transport c);
          p = \<lparr>pid = get_pid (transport c), returncode = rc, dead = (rc \<noteq> None),
               stdin = p_stdin (protocol c), stdout = p_stdout (protocol c),
               stderr = p_stderr (protocol c)\<rparr>
      in if rc = None then
           (let (waiter, fs) = Future (futures c) in
            \<lparr>transport = transport c,
             protocol = (protocol c)\<lparr>p_waiters := p_waiters (protocol c) @ [waiter]\<rparr>,
             futures = add_done_callback waiter Set_returncode fs,
             readers = readers c,
             proc = p\<rparr>)
         else
           \<lparr>transport = transport c, protocol = protocol c, futures = futures c,
            readers = readers c, proc = p\<rparr>)"

definition wait_resume :: "nat \<Rightarrow> sys \<Rightarrow> (nat, int option) step \<times> sys" where
  "wait_resume waiter s =
     (if \<not> fut_done (futures s) waiter then (Suspended waiter, s)
      else (case fut_result (futures s) waiter of
              Ok v \<Rightarrow> (Finished v, s)
            | Err e \<Rightarrow> (Raised e, s)))"

definition wait :: "sys \<Rightarrow> (nat, int option) step \<times> sys" where
  "wait s =
     (case returncode (proc s) of
        Some rc \<Rightarrow> (Finished (Some rc), s)
      | None \<Rightarrow>
          (let (waiter, fs) = Future (futures s) in
           wait_resume waiter
             (s\<lparr>futures := fs,
                protocol := (protocol s)\<lparr>p_waiters := p_waiters (protocol s) @ [waiter]\<rparr>\<rparr>)))"

definition check_alive :: "sys \<Rightarrow> unit res" where
  "check_alive s = (if dead (proc s) then Err ProcessLookupError else Ok ())"

definition send_signal :: "int \<Rightarrow> sys \<Rightarrow> unit res \<times> sys" where
  "send_signal signal s =
     (case check_alive s of
        Err e \<Rightarrow> (Err e, s)
      | Ok u \<Rightarrow> (Ok (), s\<lparr>transport := called (Send_signal signal) (transport s)\<rparr>))"

definition terminate :: "sys \<Rightarrow> unit res \<times> sys" where
  "terminate s =
     (case check_alive s of
        Err e \<Rightarrow> (Err e, s)
      | Ok u \<Rightarrow> (Ok (), s\<lparr>transport := called Terminate (transport s)\<rparr>))"

definition kill :: "sys \<Rightarrow> unit res \<times> sys" where
  "kill s =
     (case check_alive s of
        Err e \<Rightarrow> (Err e, s)
      | Ok u \<Rightarrow> (Ok (), s\<lparr>transport := called Kill (transport s)\<rparr>))"

definition close :: "sys \<Rightarrow> unit res \<times> sys" where
  "close s = (Ok (), s\<lparr>transport := called Close (transport s)\<rparr>)"

text \<open>
  Modelled from the spec: the stream writer of section 4.2.  \<open>write(bytes)\<close> "forwards to
  the underlying pipe, never suspends" (the call is recorded by the pipe transport) and
  \<open>drain()\<close> is the \<open>drain\<close> above on the flow-control state of the writer's protocol,
  which is this process's protocol.
\<close>

definition writer_write :: "int \<Rightarrow> bytes \<Rightarrow> sys \<Rightarrow> sys" where
  "writer_write fd data s = s\<lparr>transport := called (Pipe_write fd data) (transport s)\<rparr>"

definition writer_drain :: "sys \<Rightarrow> nat option res \<times> sys" where
  "writer_drain s =
     (let (r, f, fs) = drain (p_flow (protocol s)) (futures s)
      in (r, s\<lparr>protocol := (protocol s)\<lparr>p_flow := f\<rparr>, futures := fs\<rparr>))"

text \<open>
  A coroutine is a function that runs to its first suspension, and one \<open>_resume\<close>
  function per suspension point that runs on from there once what it awaits is ready
  (and stays suspended when it is not).  \<open>_feed_stdin\<close> suspends in \<open>drain()\<close>, on the
  drain waiter.  Its result is Python's \<open>None\<close>.
\<close>

definition feed_stdin_resume :: "nat \<Rightarrow> sys \<Rightarrow> (nat, bytes option) step \<times> sys" where
  "feed_stdin_resume waiter s =
     (if \<not> fut_done (futures s) waiter then (Suspended waiter, s)
      else (case fut_result (futures s) waiter of
              Err e \<Rightarrow> (Raised e, s)
            | Ok v \<Rightarrow>
                (case stdin (proc s) of
                   None \<Rightarrow> (Raised AttributeError, s)
                 | Some fd \<Rightarrow> (Finished None, writer_close fd s))))"

definition feed_stdin :: "bytes \<Rightarrow> sys \<Rightarrow> (nat, bytes option) step \<times> sys" where
  "feed_stdin input s =
     (case stdin (proc s) of
        None \<Rightarrow> (Raised AttributeError, s)
      | Some fd \<Rightarrow>
          (case writer_drain (writer_write fd input s) of
             (Err e, s') \<Rightarrow> (Raised e, s')
           | (Ok None, s') \<Rightarrow> (Finished None, writer_close fd s')
           | (Ok (Some waiter), s') \<Rightarrow> (Suspended waiter, s')))"

definition noop :: "sys \<Rightarrow> ('pc, bytes option) step \<times> sys" where
  "noop s = (Finished None, s)"

text \<open>
  Modelled from the spec: \<open>stream.read()\<close> is \<open>read_to_end()\<close> of section 4.3, which
  "suspends, accumulating fed bytes, until EOF or error; returns the accumulated bytes on
  EOF, or propagates err on error".  \<open>_read_stream\<close> suspends there; its program counter
  is the descriptor.
\<close>

definition read_stream :: "int \<Rightarrow> sys \<Rightarrow> (int, bytes option) step \<times> sys" where
  "read_stream fd s =
     (let pipe = get_pipe_transport (transport s) fd;
          stream = (if fd = 2 then stderr (proc s) else stdout (proc s))
      in case stream of
           None \<Rightarrow> (Raised AttributeError, s)
         | Some a \<Rightarrow>
             (case r_terminal (cell (readers s) a) of
                None \<Rightarrow> (Suspended fd, s)
              | Some (Errored e) \<Rightarrow> (Raised e, s)
              | Some At_eof \<Rightarrow>
                  (case pipe of
                     None \<Rightarrow> (Raised AttributeError, s)
                   | Some p \<Rightarrow>
                       (Finished (Some (r_buffer (cell (readers s) a))),
                        s\<lparr>transport := called (Pipe_close p) (transport s)\<rparr>))))"

text \<open>
  Modelled from the spec: \<open>tasks.gather\<close> is the fan-in join of section 6, "wait for all,
  propagate first error": its result exists once every sub-operation has one, and is
  then the three values, or the error of the first sub-operation that failed.
\<close>

fun outcome :: "('pc, 'a) step \<Rightarrow> 'a res option" where
  "outcome (Finished v) = Some (Ok v)"
| "outcome (Raised e) = Some (Err e)"
| "outcome (Suspended pc) = None"

fun gather :: "'a res option \<Rightarrow> 'b res option \<Rightarrow> 'c res option \<Rightarrow> ('a \<times> 'b \<times> 'c) res option" where
  "gather (Some (Ok x)) (Some (Ok y)) (Some (Ok z)) = Some (Ok (x, y, z))"
| "gather (Some (Err e)) (Some y) (Some z) = Some (Err e)"
| "gather (Some (Ok x)) (Some (Err e)) (Some z) = Some (Err e)"
| "gather (Some (Ok x)) (Some (Ok y)) (Some (Err e)) = Some (Err e)"
| "gather a b c = None"

text \<open>
  \<open>communicate\<close> suspends in the join (with the three sub-operations as they stand) and
  in the final \<open>wait()\<close> (on its waiter, holding the two payloads).
\<close>

datatype comm_pc =
  Gathering "(nat, bytes option) step" "(int, bytes option) step" "(int, bytes option) step"
| Waiting nat "bytes option" "bytes option"

fun truthy :: "bytes option \<Rightarrow> bool" where
  "truthy None = False"
| "truthy (Some data) = (data \<noteq> [])"

fun stdin_resume :: "(nat, bytes option) step \<Rightarrow> sys \<Rightarrow> (nat, bytes option) step \<times> sys" where
  "stdin_resume (Suspended waiter) s = feed_stdin_resume waiter s"
| "stdin_resume t s = (t, s)"

fun reader_resume :: "(int, bytes option) step \<Rightarrow> sys \<Rightarrow> (int, bytes option) step \<times> sys" where
  "reader_resume (Suspended fd) s = read_stream fd s"
| "reader_resume t s = (t, s)"

definition communicate_wait ::
  "bytes option \<Rightarrow> bytes option \<Rightarrow> (nat, int option) step \<times> sys
     \<Rightarrow> (comm_pc, bytes option \<times> bytes option) step \<times> sys" where
  "communicate_wait out err r =
     (case r of
        (Finished rc, s) \<Rightarrow> (Finished (out, err), s)
      | (Raised e, s) \<Rightarrow> (Raised e, s)
      | (Suspended waiter, s) \<Rightarrow> (Suspended (Waiting waiter out err), s))"

definition communicate_join ::
  "(nat, bytes option) step \<Rightarrow> (int, bytes option) step \<Rightarrow> (int, bytes option) step \<Rightarrow> sys
     \<Rightarrow> (comm_pc, bytes option \<times> bytes option) step \<times> sys" where
  "communicate_join a b c s =
     (case gather (outcome a) (outcome b) (outcome c) of
        None \<Rightarrow> (Suspended (Gathering a b c), s)
      | Some (Err e) \<Rightarrow> (Raised e, s)
      | Some (Ok (i, out, err)) \<Rightarrow> communicate_wait out err (wait s))"

definition communicate ::
  "bytes option \<Rightarrow> sys \<Rightarrow> (comm_pc, bytes option \<times> bytes option) step \<times> sys" where
  "communicate input s =
     (let (a, s1) = (if truthy input then feed_stdin (the input) s else noop s);
          (b, s2) = (if stdout (proc s1) \<noteq> None then read_stream 1 s1 else noop s1);
          (c, s3) = (if stderr (proc s2) \<noteq> None then read_stream 2 s2 else noop s2)
      in communicate_join a b c s3)"

fun communicate_resume ::
  "comm_pc \<Rightarrow> sys \<Rightarrow> (comm_pc, bytes option \<times> bytes option) step \<times> sys" where
  "communicate_resume (Gathering a b c) s =
     (let (a', s1) = stdin_resume a s;
          (b', s2) = reader_resume b s1;
          (c', s3) = reader_resume c s2
      in communicate_join a' b' c' s3)"
| "communicate_resume (Waiting waiter out err) s = communicate_wait out err (wait_resume waiter s)"

subsection \<open>create\_subprocess\_exec\<close>

text \<open>
  Modelled from the spec: the spawn collaborator of section 6 makes the transport \<open>t\<close>
  (the parameter here) and the protocol from the factory and delivers the \<open>ready\<close>
  event, \<open>connection_made\<close>.  The coroutine then awaits \<open>protocol.waiter\<close>, which
  \<open>connection_made\<close> has settled, and builds the handle.
\<close>

definition create_subprocess_exec :: "transport \<Rightarrow> nat \<Rightarrow> sys" where
  "create_subprocess_exec t lim = Popen (snd (connection_made (SubprocessStreamProtocol lim t)))"

definition fake_transport :: "int option \<Rightarrow> int list \<Rightarrow> transport" where
  "fake_transport rc fds = \<lparr>t_pid = 4242, t_returncode = rc, t_pipes = fds, t_calls = []\<rparr>"

definition spawned :: "int option \<Rightarrow> int list \<Rightarrow> sys" where
  "spawned rc fds = create_subprocess_exec (fake_transport rc fds) 65536"

subsection \<open>Events of the transport\<close>

datatype event =
  Pipe_data int bytes
| Pipe_lost int "exn option"
| Process_exited int
| Pause_writing
| Resume_writing

text \<open>
  Modelled from the spec: what the transport collaborator does to the protocol.  When the
  process exits with a code, the transport caches the code ("absent while running"; a
  code already cached stays, a process exits once) and then delivers process-exited;
  the protocol reads the cached code back.  Pause and resume are the backpressure signals
  of section 4.2.  An exception raised by a handler goes to the event loop; the state
  the handler left stays.
\<close>

definition cache_returncode :: "int \<Rightarrow> sys \<Rightarrow> sys" where
  "cache_returncode rc s =
     (case t_returncode (transport s) of
        None \<Rightarrow> s\<lparr>transport := (transport s)\<lparr>t_returncode := Some rc\<rparr>\<rparr>
      | Some r \<Rightarrow> s)"

fun deliver :: "event \<Rightarrow> sys \<Rightarrow> sys" where
  "deliver (Pipe_data fd data) s = pipe_data_received fd data s"
| "deliver (Pipe_lost fd exc) s = pipe_connection_lost fd exc s"
| "deliver (Process_exited rc) s = snd (process_exited (cache_returncode rc s))"
| "deliver Pause_writing s =
     s\<lparr>protocol := (protocol s)\<lparr>p_flow := snd (pause_writing (p_flow (protocol s)))\<rparr>\<rparr>"
| "deliver Resume_writing s =
     (let (r, f, fs) = resume_writing (p_flow (protocol s)) (futures s)
      in s\<lparr>protocol := (protocol s)\<lparr>p_flow := f\<rparr>, futures := fs\<rparr>)"

subsection \<open>call\<close>

text \<open>
  The body of \<open>call\<close> after the handle is made: the \<open>try\<close> statement around the awaited
  \<open>wait()\<close>.  \<open>call_returned\<close> is the path of the \<open>return\<close> through \<open>finally\<close>;
  \<open>call_failed e\<close> is the path of an exception \<open>e\<close> raised at the \<open>yield from\<close> through
  \<open>except\<close> (where an exception of \<open>kill()\<close> replaces \<open>e\<close>) and \<open>finally\<close>.
\<close>

definition call_returned :: "int option \<Rightarrow> sys \<Rightarrow> (nat, int option) step \<times> sys" where
  "call_returned rc s =
     (case close s of
        (Err e, s') \<Rightarrow> (Raised e, s')
      | (Ok u, s') \<Rightarrow> (Finished rc, s'))"

definition call_failed :: "exn \<Rightarrow> sys \<Rightarrow> (nat, int option) step \<times> sys" where
  "call_failed e s =
     (case kill s of
        (Err e1, s1) \<Rightarrow>
          (case close s1 of
             (Err e2, s2) \<Rightarrow> (Raised e2, s2)
           | (Ok u, s2) \<Rightarrow> (Raised e1, s2))
      | (Ok u, s1) \<Rightarrow>
          (case close s1 of
             (Err e2, s2) \<Rightarrow> (Raised e2, s2)
           | (Ok u, s2) \<Rightarrow> (Raised e, s2)))"

definition call_try :: "(nat, int option) step \<times> sys \<Rightarrow> (nat, int option) step \<times> sys" where
  "call_try r =
     (case r of
        (Finished rc, s) \<Rightarrow> call_returned rc s
      | (Raised e, s) \<Rightarrow> call_failed e s
      | (Suspended waiter, s) \<Rightarrow> (Suspended waiter, s))"

definition call :: "transport \<Rightarrow> nat \<Rightarrow> (nat, int option) step \<times> sys" where
  "call t lim = call_try (wait (create_subprocess_exec t lim))"

text \<open>
  Modelled from the spec: \<open>tasks.wait_for\<close> is the bounded-wait combinator of section 6,
  "await this operation, or fail with Timeout after a deadline".  While \<open>call\<close> is
  suspended, an event of the transport resumes the awaited \<open>wait()\<close>; the deadline, when
  \<open>call\<close> was given a timeout, raises \<open>TimeoutError\<close> at the \<open>yield from\<close>; and the
  task running \<open>call\<close> may have any exception thrown into it there (a cancellation).
  A \<open>call\<close> that is over takes no further part.
\<close>

datatype call_event = Transport event | Deadline | Thrown exn

fun call_resume ::
  "bool \<Rightarrow> call_event \<Rightarrow> (nat, int option) step \<times> sys \<Rightarrow> (nat, int option) step \<times> sys" where
  "call_resume timeout (Transport ev) (Suspended waiter, s) =
     call_try (wait_resume waiter (deliver ev s))"
| "call_resume timeout Deadline (Suspended waiter, s) =
     (if timeout then call_failed TimeoutError s else (Suspended waiter, s))"
| "call_resume timeout (Thrown e) (Suspended waiter, s) = call_failed e s"
| "call_resume timeout ev (r, s) = (r, s)"

definition call_run ::
  "transport \<Rightarrow> nat \<Rightarrow> bool \<Rightarrow> call_event list \<Rightarrow> (nat, int option) step \<times> sys" where
  "call_run t lim timeout evs = fold (call_resume timeout) evs (call t lim)"

subsection \<open>Runs of a process handle\<close>

text \<open>
  What can happen to a handle: its owner calls an operation, or the transport delivers an
  event.  \<open>wait\<close> and \<open>communicate\<close> calls stay in a list of tasks; after an event each
  task that is suspended is resumed once, in the order of the calls (no task settles a
  future or feeds a reader, so one round settles all).  The error of a failed signal
  operation goes to the caller and is not kept.
\<close>

datatype operation =
  Op_wait | Op_communicate "bytes option" | Op_send_signal int | Op_terminate | Op_kill | Op_close

datatype action = Call operation | Event event

datatype task =
  Wait_task "(nat, int option) step"
| Communicate_task "(comm_pc, bytes option \<times> bytes option) step"

fun resume_task :: "task \<Rightarrow> sys \<Rightarrow> task \<times> sys" where
  "resume_task (Wait_task (Suspended waiter)) s =
     (let (r, s') = wait_resume waiter s in (Wait_task r, s'))"
| "resume_task (Communicate_task (Suspended pc)) s =
     (let (r, s') = communicate_resume pc s in (Communicate_task r, s'))"
| "resume_task t s = (t, s)"

fun resume_all :: "task list \<Rightarrow> sys \<Rightarrow> task list \<times> sys" where
  "resume_all [] s = ([], s)"
| "resume_all (t # ts) s =
     (let (t', s1) = resume_task t s;
          (ts', s2) = resume_all ts s1
      in (t' # ts', s2))"

fun act :: "action \<Rightarrow> task list \<times> sys \<Rightarrow> task list \<times> sys" where
  "act (Event ev) (ts, s) = resume_all ts (deliver ev s)"
| "act (Call Op_wait) (ts, s) = (let (r, s') = wait s in (ts @ [Wait_task r], s'))"
| "act (Call (Op_communicate input)) (ts, s) =
     (let (r, s') = communicate input s in (ts @ [Communicate_task r], s'))"
| "act (Call (Op_send_signal signal)) (ts, s) = (ts, snd (send_signal signal s))"
| "act (Call Op_terminate) (ts, s) = (ts, snd (terminate s))"
| "act (Call Op_kill) (ts, s) = (ts, snd (kill s))"
| "act (Call Op_close) (ts, s) = (ts, snd (close s))"

definition run :: "action list \<Rightarrow> sys \<Rightarrow> task list \<times> sys" where
  "run acts s = fold act acts ([], s)"

subsection \<open>Runs of the pipe writer\<close>

text \<open>
  What can happen to a \<open>WriteSubprocessPipeStreamProto\<close>: the transport pauses or
  resumes it or reports the loss of the connection, and a caller calls \<open>drain()\<close>.  An
  exception raised by a step is dropped (the event loop logs it); the state it left stays.
\<close>

datatype wevent = W_pause | W_resume | W_drain | W_lost "exn option"

fun wstep :: "wevent \<Rightarrow> write_proto \<times> fstore \<Rightarrow> write_proto \<times> fstore" where
  "wstep W_pause (p, fs) = (snd (pause_writing p), fs)"
| "wstep W_resume (p, fs) = snd (resume_writing p fs)"
| "wstep W_drain (p, fs) = snd (drain p fs)"
| "wstep (W_lost exc) (p, fs) = wp_connection_lost exc p fs"

definition wrun :: "wevent list \<Rightarrow> write_proto \<times> fstore" where
  "wrun evs = fold wstep evs (WriteSubprocessPipeStreamProto, no_futures)"

text \<open>
  The invariant of these runs: every future the writer has allocated is settled, except
  the one in the waiter slot, which is pending and is there only while the writer is
  paused.
\<close>

definition winv :: "write_proto \<Rightarrow> fstore \<Rightarrow> bool" where
  "winv p fs =
     (case drain_waiter p of
        None \<Rightarrow> (\<forall>w. w < fresh fs \<longrightarrow> fut_done fs w)
      | Some w \<Rightarrow> paused p \<and> w < fresh fs \<and> \<not> fut_done fs w
                 \<and> (\<forall>v. v < fresh fs \<longrightarrow> v \<noteq> w \<longrightarrow> fut_done fs v))"

definition close_times :: "nat \<Rightarrow> sys \<Rightarrow> sys" where
  "close_times n s = ((\<lambda>s. snd (close s)) ^^ n) s"


text \<open>
  What the loop of \<open>process_exited\<close> has done when it ends, in terms of the state \<open>s\<close>
  before and the waiters \<open>ws\<close> that were registered: the list is empty, each of those
  futures holds the result \<open>v\<close>, no other future has changed, and a done-callback,
  where one of them had one, has set the handle's exit code and dead flag.
\<close>

definition broadcast_post :: "int option \<Rightarrow> nat list \<Rightarrow> sys \<Rightarrow> sys \<Rightarrow> bool" where
  "broadcast_post v ws s s' =
     (protocol s' = (protocol s)\<lparr>p_waiters := []\<rparr>
      \<and> transport s' = transport s
      \<and> readers s' = readers s
      \<and> fresh (futures s') = fresh (futures s)
      \<and> (\<forall>w. slot (futures s') w
             = (if w \<in> set ws then (slot (futures s) w)\<lparr>fut_state := Result v\<rparr>
                else slot (futures s) w))
      \<and> proc s' = (if \<exists>w\<in>set ws. fut_callbacks (slot (futures s) w) \<noteq> []
                   then (proc s)\<lparr>returncode := v, dead := True\<rparr> else proc s))"

text \<open>
  The invariant of a handle and its protocol: the handle's exit code is the transport's;
  the dead flag says whether it is present; the transport is attached; while the code is
  absent the handle's own waiter, which carries the callback, is registered; once it is
  present no waiter is registered; registered waiters are pending, allocated and distinct;
  and the drain waiter is allocated and is not one of them.
\<close>

definition inv :: "sys \<Rightarrow> bool" where
  "inv s =
     (returncode (proc s) = t_returncode (transport s)
      \<and> dead (proc s) = (returncode (proc s) \<noteq> None)
      \<and> p_transport (protocol s)
      \<and> (returncode (proc s) = None \<longrightarrow>
           (\<exists>w\<in>set (p_waiters (protocol s)). fut_callbacks (slot (futures s) w) \<noteq> []))
      \<and> (returncode (proc s) \<noteq> None \<longrightarrow> p_waiters (protocol s) = [])
      \<and> (\<forall>w\<in>set (p_waiters (protocol s)). \<not> fut_done (futures s) w \<and> w < fresh (futures s))
      \<and> distinct (p_waiters (protocol s))
      \<and> (\<forall>w. drain_waiter (p_flow (protocol s)) = Some w \<longrightarrow>
             w < fresh (futures s) \<and> w \<notin> set (p_waiters (protocol s))))"

text \<open>
  A step from \<open>s\<close> to \<open>s'\<close> is quiet when it keeps the invariant and the handle's
  fields.
\<close>

definition quiet :: "sys \<Rightarrow> sys \<Rightarrow> bool" where
  "quiet s s' = ((inv s \<longrightarrow> inv s') \<and> proc s' = proc s)"

text \<open>
  The exit code that an action delivers, if it is a process-exited event.
\<close>

fun exit_of :: "action \<Rightarrow> int option" where
  "exit_of (Event (Process_exited rc)) = Some rc"
| "exit_of a = None"

section \<open>Properties\<close>

subsection \<open>Signals on a dead handle\<close>

text \<open>
  C4.  When the dead flag is set, each of \<open>send_signal(sig)\<close>, \<open>terminate()\<close> and
  \<open>kill()\<close> raises \<open>ProcessLookupError\<close> and leaves the whole state, the transport's call
  record included, as it was: no call reaches the transport.  When the flag is not set,
  each records exactly its own call in the transport and changes nothing else.
\<close>

theorem signals_check_dead_flag:
  "(dead (proc s) \<longrightarrow>
      send_signal sig s = (Err ProcessLookupError, s)
    \<and> terminate s = (Err ProcessLookupError, s)
    \<and> kill s = (Err ProcessLookupError, s)
    \<and> t_calls (transport (snd (send_signal sig s))) = t_calls (transport s)
    \<and> t_calls (transport (snd (terminate s))) = t_calls (transport s)
    \<and> t_calls (transport (snd (kill s))) = t_calls (transport s))
   \<and> (\<not> dead (proc s) \<longrightarrow>
      send_signal sig s = (Ok (), s\<lparr>transport := called (Send_signal sig) (transport s)\<rparr>)
    \<and> terminate s = (Ok (), s\<lparr>transport := called Terminate (transport s)\<rparr>)
    \<and> kill s = (Ok (), s\<lparr>transport := called Kill (transport s)\<rparr>)
    \<and> t_calls (transport (snd (send_signal sig s))) = t_calls (transport s) @ [Send_signal sig]
    \<and> t_calls (transport (snd (terminate s))) = t_calls (transport s) @ [Terminate]
    \<and> t_calls (transport (snd (kill s))) = t_calls (transport s) @ [Kill])"
  by (simp add: send_signal_def terminate_def kill_def check_alive_def called_def)

lemma connection_made_transport: "transport (snd (connection_made c)) = transport c"
  by (simp add: connection_made_def Let_def new_reader_def split: prod.splits option.splits)

lemma SubprocessStreamProtocol_transport: "transport (SubprocessStreamProtocol lim t) = t"
  by (simp add: SubprocessStreamProtocol_def Future_def)

lemma Popen_proc:
  "returncode (proc (Popen c)) = t_returncode (transport c)"
  "dead (proc (Popen c)) = (t_returncode (transport c) \<noteq> None)"
  "pid (proc (Popen c)) = t_pid (transport c)"
  "stdin (proc (Popen c)) = p_stdin (protocol c)"
  "stdout (proc (Popen c)) = p_stdout (protocol c)"
  "stderr (proc (Popen c)) = p_stderr (protocol c)"
  by (simp_all add: Popen_def Let_def get_returncode_def get_pid_def split: prod.splits)

lemma spawned_dead: "dead (proc (spawned rc fds)) = (rc \<noteq> None)"
  by (simp add: spawned_def create_subprocess_exec_def Popen_proc connection_made_transport
      SubprocessStreamProtocol_transport fake_transport_def)

theorem signals_check_dead_flag_witness:
  "dead (proc (spawned (Some 0) [0, 1]))
   \<and> kill (spawned (Some 0) [0, 1]) = (Err ProcessLookupError, spawned (Some 0) [0, 1])
   \<and> send_signal 15 (spawned (Some 0) [0, 1]) = (Err ProcessLookupError, spawned (Some 0) [0, 1])
   \<and> terminate (spawned (Some 0) [0, 1]) = (Err ProcessLookupError, spawned (Some 0) [0, 1])
   \<and> \<not> dead (proc (spawned None [0, 1]))
   \<and> t_calls (transport (snd (kill (spawned None [0, 1]))))
       = t_calls (transport (spawned None [0, 1])) @ [Kill]"
  using signals_check_dead_flag [of "spawned (Some 0) [0, 1]" 15]
    signals_check_dead_flag [of "spawned None [0, 1]" 15]
  by (simp add: spawned_dead called_def)

subsection \<open>Closing the handle\<close>

lemma close_times_calls_aux:
  "t_calls (transport (close_times n s)) = t_calls (transport s) @ replicate n Close
   \<and> proc (close_times n s) = proc s \<and> protocol (close_times n s) = protocol s
   \<and> futures (close_times n s) = futures s \<and> readers (close_times n s) = readers s
   \<and> t_pid (transport (close_times n s)) = t_pid (transport s)
   \<and> t_returncode (transport (close_times n s)) = t_returncode (transport s)
   \<and> t_pipes (transport (close_times n s)) = t_pipes (transport s)"
proof (induction n)
  case 0
  show ?case by (simp add: close_times_def)
next
  case (Suc n)
  then show ?case
    by (simp add: close_times_def close_def called_def replicate_append_same)
qed

text \<open>
  C9, as the code has it.  \<open>close()\<close> on the handle raises no error of its own and
  forwards to the transport's \<open>close()\<close> on every call: after \<open>n\<close> calls the transport has
  received \<open>n\<close> calls of \<open>close()\<close>, and nothing else of the state has changed.  The
  handle keeps no closed flag; whether a repeated call releases anything is the
  transport's matter.
\<close>

theorem close_forwards_every_call:
  "fst (close s) = Ok ()
   \<and> t_calls (transport (close_times n s)) = t_calls (transport s) @ replicate n Close
   \<and> proc (close_times n s) = proc s
   \<and> protocol (close_times n s) = protocol s
   \<and> futures (close_times n s) = futures s
   \<and> readers (close_times n s) = readers s"
  using close_times_calls_aux [of n s] by (simp add: close_def)

text \<open>
  The claim as stated fails: the second \<open>close()\<close> is not a no-op, it reaches the
  transport again.
\<close>

theorem close_twice_counterexample:
  "snd (close (snd (close (spawned None [])))) \<noteq> snd (close (spawned None []))
   \<and> t_calls (transport (snd (close (snd (close (spawned None [])))))) = [Close, Close]"
proof -
  have c: "t_calls (transport (spawned None [])) = []"
    by (simp add: spawned_def create_subprocess_exec_def Popen_def Let_def get_returncode_def connection_made_transport
        SubprocessStreamProtocol_transport fake_transport_def split: prod.splits)
  have two: "t_calls (transport (snd (close (snd (close (spawned None [])))))) = [Close, Close]"
    by (simp add: close_def called_def c)
  have one: "t_calls (transport (snd (close (spawned None [])))) = [Close]"
    by (simp add: close_def called_def c)
  from two one show ?thesis by auto
qed

subsection \<open>Routing of pipe data\<close>

lemma spawned_reader_refs:
  "p_stdout (protocol (spawned rc fds)) = (if 1 \<in> set fds then Some 0 else None)"
  "p_stderr (protocol (spawned rc fds))
     = (if 2 \<in> set fds then Some (if 1 \<in> set fds then 1 else 0) else None)"
  by (simp_all add: spawned_def create_subprocess_exec_def Popen_def Let_def get_returncode_def connection_made_def
      SubprocessStreamProtocol_def fake_transport_def new_reader_def alloc_reader_def
      no_readers_def get_pipe_transport_def Future_def no_futures_def fut_set_result_def
      split: prod.splits option.splits)

text \<open>
  C6, as the code has it.  In \<open>subprocess.py\<close>, data on descriptor 1 is fed to the
  stdout reader and to no other reader, data on descriptor 2 to the stderr reader and to
  no other reader, data for an absent reader or on any other descriptor leaves the state
  as it is, and no call raises; transport, protocol, futures and handle are never
  touched.  In \<open>subprocess_stream.py\<close>, data on a descriptor of the table \<open>_pipes\<close> is
  fed to that descriptor's reader only, and a descriptor outside the table raises
  \<open>KeyError\<close>.
\<close>

theorem data_routed_by_descriptor:
  "(p_stdout (protocol s) = Some a \<longrightarrow>
      cell (readers (pipe_data_received 1 data s)) a = feed_data data (cell (readers s) a)
    \<and> (\<forall>b. b \<noteq> a \<longrightarrow> cell (readers (pipe_data_received 1 data s)) b = cell (readers s) b))
   \<and> (p_stdout (protocol s) = None \<longrightarrow> pipe_data_received 1 data s = s)
   \<and> (p_stderr (protocol s) = Some a \<longrightarrow>
      cell (readers (pipe_data_received 2 data s)) a = feed_data data (cell (readers s) a)
    \<and> (\<forall>b. b \<noteq> a \<longrightarrow> cell (readers (pipe_data_received 2 data s)) b = cell (readers s) b))
   \<and> (p_stderr (protocol s) = None \<longrightarrow> pipe_data_received 2 data s = s)
   \<and> (fd \<noteq> 1 \<and> fd \<noteq> 2 \<longrightarrow> pipe_data_received fd data s = s)
   \<and> transport (pipe_data_received fd data s) = transport s
   \<and> protocol (pipe_data_received fd data s) = protocol s
   \<and> futures (pipe_data_received fd data s) = futures s
   \<and> proc (pipe_data_received fd data s) = proc s
   \<and> (ps fd = Some r \<longrightarrow>
        sp_pipe_data_received fd data ps = (Ok (), ps(fd \<mapsto> feed_data data r)))
   \<and> (ps fd = None \<longrightarrow> sp_pipe_data_received fd data ps = (Err (KeyError fd), ps))"
  by (simp add: pipe_data_received_def on_reader_def sp_pipe_data_received_def
      rp_data_received_def split: option.splits)

theorem data_routed_by_descriptor_witness:
  "p_stdout (protocol (spawned None [1, 2])) = Some 0
   \<and> p_stderr (protocol (spawned None [1, 2])) = Some 1
   \<and> cell (readers (pipe_data_received 1 ''out'' (spawned None [1, 2]))) 0
       = feed_data ''out'' (cell (readers (spawned None [1, 2])) 0)
   \<and> cell (readers (pipe_data_received 1 ''out'' (spawned None [1, 2]))) 1
       = cell (readers (spawned None [1, 2])) 1
   \<and> cell (readers (pipe_data_received 2 ''err'' (spawned None [1, 2]))) 1
       = feed_data ''err'' (cell (readers (spawned None [1, 2])) 1)
   \<and> cell (readers (pipe_data_received 2 ''err'' (spawned None [1, 2]))) 0
       = cell (readers (spawned None [1, 2])) 0
   \<and> pipe_data_received 7 ''out'' (spawned None [1, 2]) = spawned None [1, 2]
   \<and> p_stdout (protocol (spawned None [])) = None
   \<and> pipe_data_received 1 ''x'' (spawned None []) = spawned None []
   \<and> pipe_data_received 2 ''x'' (spawned None []) = spawned None []
   \<and> sp_pipe_data_received 1 ''x'' [1 \<mapsto> new_StreamReader 0]
       = (Ok (), [1 \<mapsto> new_StreamReader 0](1 \<mapsto> feed_data ''x'' (new_StreamReader 0)))
   \<and> sp_pipe_data_received 7 ''out'' [1 \<mapsto> new_StreamReader 0]
       = (Err (KeyError 7), [1 \<mapsto> new_StreamReader 0])"
proof -
  have o: "p_stdout (protocol (spawned None [1, 2])) = Some 0"
    and e: "p_stderr (protocol (spawned None [1, 2])) = Some 1"
    and n: "p_stdout (protocol (spawned None [])) = None"
      "p_stderr (protocol (spawned None [])) = None"
    by (simp_all add: spawned_reader_refs)
  have k: "[1 \<mapsto> new_StreamReader 0] (7::int) = None"
    "[1 \<mapsto> new_StreamReader 0] (1::int) = Some (new_StreamReader 0)"
    by simp_all
  have d: "(1::nat) \<noteq> 0" "(0::nat) \<noteq> 1" "(7::int) \<noteq> 1 \<and> (7::int) \<noteq> 2"
    by simp_all
  from data_routed_by_descriptor [of "spawned None [1, 2]" 0 "''out''" 7
      "[1 \<mapsto> new_StreamReader 0]" "new_StreamReader 0"] o k d
  have A: "cell (readers (pipe_data_received 1 ''out'' (spawned None [1, 2]))) 0
       = feed_data ''out'' (cell (readers (spawned None [1, 2])) 0)"
    "cell (readers (pipe_data_received 1 ''out'' (spawned None [1, 2]))) 1
       = cell (readers (spawned None [1, 2])) 1"
    "pipe_data_received 7 ''out'' (spawned None [1, 2]) = spawned None [1, 2]"
    "sp_pipe_data_received 7 ''out'' [1 \<mapsto> new_StreamReader 0]
       = (Err (KeyError 7), [1 \<mapsto> new_StreamReader 0])"
    by blast+
  from data_routed_by_descriptor [of "spawned None [1, 2]" 1 "''err''" 1
      "[1 \<mapsto> new_StreamReader 0]" "new_StreamReader 0"] e d
  have B: "cell (readers (pipe_data_received 2 ''err'' (spawned None [1, 2]))) 1
       = feed_data ''err'' (cell (readers (spawned None [1, 2])) 1)"
    "cell (readers (pipe_data_received 2 ''err'' (spawned None [1, 2]))) 0
       = cell (readers (spawned None [1, 2])) 0"
    by blast+
  from data_routed_by_descriptor [of "spawned None []" 0 "''x''" 1
      "[1 \<mapsto> new_StreamReader 0]" "new_StreamReader 0"] n k
  have C: "pipe_data_received 1 ''x'' (spawned None []) = spawned None []"
    "pipe_data_received 2 ''x'' (spawned None []) = spawned None []"
    "sp_pipe_data_received 1 ''x'' [1 \<mapsto> new_StreamReader 0]
       = (Ok (), [1 \<mapsto> new_StreamReader 0](1 \<mapsto> feed_data ''x'' (new_StreamReader 0)))"
    by blast+
  from o e n A B C show ?thesis by blast
qed

text \<open>
  The claim as stated fails for \<open>subprocess_stream.py\<close>: an unrecognised descriptor
  raises.
\<close>

theorem unknown_descriptor_counterexample:
  "fst (sp_pipe_data_received 3 ''x'' [1 \<mapsto> new_StreamReader 0, 2 \<mapsto> new_StreamReader 0])
     = Err (KeyError 3)"
  by (simp add: sp_pipe_data_received_def)


subsection \<open>Flow control of the pipe writer\<close>

lemma winv_init: "winv WriteSubprocessPipeStreamProto no_futures"
  by (simp add: winv_def WriteSubprocessPipeStreamProto_def no_futures_def)

lemma winv_pause: "winv p fs \<Longrightarrow> winv (snd (pause_writing p)) fs"
  by (cases "drain_waiter p") (simp_all add: winv_def pause_writing_def)


lemma winv_resume: "winv p fs \<Longrightarrow> winv (fst (snd (resume_writing p fs))) (snd (snd (resume_writing p fs)))"
  by (cases "drain_waiter p"; cases "paused p")
    (simp_all add: winv_def resume_writing_def fut_done_def fut_set_result_def settle_def)

lemma winv_drain: "winv p fs \<Longrightarrow> winv (fst (snd (drain p fs))) (snd (snd (drain p fs)))"
  by (cases "drain_waiter p"; cases "paused p")
    (simp_all add: winv_def drain_def Future_def fut_done_def less_Suc_eq)

lemma winv_lost: "winv p fs \<Longrightarrow> winv (fst (wp_connection_lost exc p fs)) (snd (wp_connection_lost exc p fs))"
  by (cases "drain_waiter p"; cases "paused p"; cases exc)
    (simp_all add: winv_def wp_connection_lost_def fut_done_def fut_set_result_def
      fut_set_exception_def settle_def)

lemma winv_step: "winv (fst c) (snd c) \<Longrightarrow> winv (fst (wstep ev c)) (snd (wstep ev c))"
  by (cases c; cases ev) (simp_all add: winv_pause winv_resume winv_drain winv_lost)

lemma winv_fold: "winv (fst c) (snd c) \<Longrightarrow> winv (fst (fold wstep evs c)) (snd (fold wstep evs c))"
  by (induction evs arbitrary: c) (simp_all add: winv_step)

lemma winv_wrun: "winv (fst (wrun evs)) (snd (wrun evs))"
  by (simp add: wrun_def winv_fold winv_init)


lemma winv_lost_all_done:
  "winv p fs \<Longrightarrow> w < fresh fs \<Longrightarrow> fut_done (snd (wp_connection_lost exc p fs)) w"
  by (cases "drain_waiter p"; cases "paused p"; cases exc; cases "w = the (drain_waiter p)")
    (simp_all add: winv_def wp_connection_lost_def fut_done_def fut_set_result_def
      fut_set_exception_def settle_def)

lemma winv_lost_slot: "winv p fs \<Longrightarrow> drain_waiter (fst (wp_connection_lost exc p fs)) = None"
  by (cases "drain_waiter p"; cases "paused p")
    (simp_all add: winv_def wp_connection_lost_def)

lemma winv_waiter: "winv p fs \<Longrightarrow> drain_waiter p = Some w \<Longrightarrow> paused p \<and> \<not> fut_done fs w"
  by (simp add: winv_def)

text \<open>
  C5.  When the writer is paused, \<open>resume_writing()\<close> succeeds, clears the pause and
  the waiter slot, and settles a pending drain waiter with the result \<open>None\<close>; a
  connection loss clears the slot and settles a pending drain waiter with the reported
  error, or with the result \<open>None\<close> when the loss carries no error.  In every state
  that pause, resume, drain and loss events can reach, a waiter in the slot is pending
  and the writer is paused, so the loss does reach it: after a connection loss every
  drain waiter ever created is settled and the slot is empty.
\<close>

theorem drain_waiter_always_resolved:
  "(paused p \<longrightarrow>
      fst (resume_writing p fs) = Ok ()
    \<and> \<not> paused (fst (snd (resume_writing p fs)))
    \<and> drain_waiter (fst (snd (resume_writing p fs))) = None
    \<and> (\<forall>w. drain_waiter p = Some w \<and> \<not> fut_done fs w \<longrightarrow>
          fut_state (slot (snd (snd (resume_writing p fs))) w) = Result None)
    \<and> drain_waiter (fst (wp_connection_lost exc p fs)) = None
    \<and> (\<forall>w. drain_waiter p = Some w \<and> \<not> fut_done fs w \<longrightarrow>
          fut_state (slot (snd (wp_connection_lost exc p fs)) w)
            = (case exc of None \<Rightarrow> Result None | Some e \<Rightarrow> Exception e)))
   \<and> (\<forall>w. drain_waiter (fst (wrun evs)) = Some w \<longrightarrow>
          paused (fst (wrun evs)) \<and> \<not> fut_done (snd (wrun evs)) w)
   \<and> (\<forall>w. w < fresh (snd (wrun evs)) \<longrightarrow>
          fut_done (snd (wp_connection_lost exc (fst (wrun evs)) (snd (wrun evs)))) w)
   \<and> drain_waiter (fst (wp_connection_lost exc (fst (wrun evs)) (snd (wrun evs)))) = None"
proof -
  have a: "paused p \<Longrightarrow> fst (resume_writing p fs) = Ok ()
      \<and> \<not> paused (fst (snd (resume_writing p fs)))
      \<and> drain_waiter (fst (snd (resume_writing p fs))) = None"
    by (cases "drain_waiter p") (simp_all add: resume_writing_def)
  have b: "paused p \<Longrightarrow> drain_waiter p = Some w \<Longrightarrow> \<not> fut_done fs w \<Longrightarrow>
      fut_state (slot (snd (snd (resume_writing p fs))) w) = Result None" for w
    by (simp add: resume_writing_def fut_set_result_def settle_def)
  have c: "paused p \<Longrightarrow> drain_waiter (fst (wp_connection_lost exc p fs)) = None"
    by (cases "drain_waiter p") (simp_all add: wp_connection_lost_def)
  have d: "paused p \<Longrightarrow> drain_waiter p = Some w \<Longrightarrow> \<not> fut_done fs w \<Longrightarrow>
      fut_state (slot (snd (wp_connection_lost exc p fs)) w)
        = (case exc of None \<Rightarrow> Result None | Some e \<Rightarrow> Exception e)" for w
    by (cases exc)
      (simp_all add: wp_connection_lost_def fut_set_result_def fut_set_exception_def settle_def)
  note i = winv_wrun [of evs]
  from a b c d winv_waiter [OF i] winv_lost_all_done [OF i] winv_lost_slot [OF i]
  show ?thesis by blast
qed

lemma wrun_pause_drain:
  "paused (fst (wrun [W_pause, W_drain]))"
  "drain_waiter (fst (wrun [W_pause, W_drain])) = Some 0"
  "fresh (snd (wrun [W_pause, W_drain])) = 1"
  by (simp_all add: wrun_def pause_writing_def drain_def Future_def
      WriteSubprocessPipeStreamProto_def no_futures_def)

theorem drain_waiter_always_resolved_witness:
  "paused (fst (wrun [W_pause, W_drain]))
   \<and> drain_waiter (fst (wrun [W_pause, W_drain])) = Some 0
   \<and> \<not> fut_done (snd (wrun [W_pause, W_drain])) 0
   \<and> fut_state (slot (snd (snd (resume_writing (fst (wrun [W_pause, W_drain]))
         (snd (wrun [W_pause, W_drain]))))) 0) = Result None
   \<and> fut_state (slot (snd (wp_connection_lost (Some (OSError 32)) (fst (wrun [W_pause, W_drain]))
         (snd (wrun [W_pause, W_drain])))) 0) = Exception (OSError 32)
   \<and> fut_done (snd (wp_connection_lost (Some (OSError 32)) (fst (wrun [W_pause, W_drain]))
         (snd (wrun [W_pause, W_drain])))) 0"
proof -
  have lt: "(0::nat) < fresh (snd (wrun [W_pause, W_drain]))"
    by (simp add: wrun_pause_drain)
  from drain_waiter_always_resolved [of "fst (wrun [W_pause, W_drain])"
      "snd (wrun [W_pause, W_drain])" "Some (OSError 32)" "[W_pause, W_drain]"]
    wrun_pause_drain lt
  show ?thesis by simp
qed


subsection \<open>Pipe-closed events\<close>

lemma spawned_stdin: "p_stdin (protocol (spawned rc fds)) = (if 0 \<in> set fds then Some 0 else None)"
  by (simp add: spawned_def create_subprocess_exec_def Popen_def Let_def get_returncode_def connection_made_def
      SubprocessStreamProtocol_def fake_transport_def new_reader_def alloc_reader_def
      get_pipe_transport_def Future_def fut_set_result_def
      split: prod.splits option.splits)

lemma spawned_fresh_readers: "r_terminal (cell (readers (spawned rc fds)) a) = None"
  by (simp add: spawned_def create_subprocess_exec_def Popen_def Let_def get_returncode_def connection_made_def
      SubprocessStreamProtocol_def fake_transport_def new_reader_def alloc_reader_def
      no_readers_def new_StreamReader_def get_pipe_transport_def Future_def fut_set_result_def
      split: prod.splits option.splits)

text \<open>
  C7.  A pipe-closed event on descriptor 0 closes the stdin writer when there is one (its
  pipe transport receives \<open>close()\<close>) and hands the closure to the protocol's own
  \<open>connection_lost\<close>, which acts on the flow-control state and the futures as the pipe
  writer's does; no reader changes.  On descriptor 1 (or 2) the stdout (or stderr) reader,
  when there is one, receives \<open>feed_eof()\<close> if the error is absent and
  \<open>set_exception(err)\<close> if it is present, and no other reader changes; a reader that was
  not yet terminal is thereby marked at EOF, or errored with that error.  The read-pipe
  protocol of \<open>subprocess_stream.py\<close> does the same to its own reader.
\<close>

theorem pipe_closed_by_descriptor:
  "t_calls (transport (pipe_connection_lost 0 exc s))
     = t_calls (transport s) @ (case p_stdin (protocol s) of None \<Rightarrow> [] | Some pipe \<Rightarrow> [Pipe_close pipe])
   \<and> (p_flow (protocol (pipe_connection_lost 0 exc s)), futures (pipe_connection_lost 0 exc s))
       = wp_connection_lost exc (p_flow (protocol s)) (futures s)
   \<and> pipe_connection_lost 0 exc s
       = connection_lost exc (case p_stdin (protocol s) of None \<Rightarrow> s | Some pipe \<Rightarrow> writer_close pipe s)
   \<and> readers (pipe_connection_lost 0 exc s) = readers s
   \<and> (p_stdout (protocol s) = Some a \<longrightarrow>
        cell (readers (pipe_connection_lost 1 None s)) a = feed_eof (cell (readers s) a)
      \<and> cell (readers (pipe_connection_lost 1 (Some e) s)) a = set_exception e (cell (readers s) a)
      \<and> (\<forall>b. b \<noteq> a \<longrightarrow> cell (readers (pipe_connection_lost 1 exc s)) b = cell (readers s) b)
      \<and> (r_terminal (cell (readers s) a) = None \<longrightarrow>
            r_terminal (cell (readers (pipe_connection_lost 1 None s)) a) = Some At_eof
          \<and> r_terminal (cell (readers (pipe_connection_lost 1 (Some e) s)) a) = Some (Errored e)))
   \<and> (p_stderr (protocol s) = Some a \<longrightarrow>
        cell (readers (pipe_connection_lost 2 None s)) a = feed_eof (cell (readers s) a)
      \<and> cell (readers (pipe_connection_lost 2 (Some e) s)) a = set_exception e (cell (readers s) a)
      \<and> (\<forall>b. b \<noteq> a \<longrightarrow> cell (readers (pipe_connection_lost 2 exc s)) b = cell (readers s) b)
      \<and> (r_terminal (cell (readers s) a) = None \<longrightarrow>
            r_terminal (cell (readers (pipe_connection_lost 2 None s)) a) = Some At_eof
          \<and> r_terminal (cell (readers (pipe_connection_lost 2 (Some e) s)) a) = Some (Errored e)))
   \<and> rp_connection_lost None r = feed_eof r
   \<and> rp_connection_lost (Some e) r = set_exception e r
   \<and> (r_terminal r = None \<longrightarrow>
        r_terminal (rp_connection_lost None r) = Some At_eof
      \<and> r_terminal (rp_connection_lost (Some e) r) = Some (Errored e))"
proof -
  have z: "t_calls (transport (pipe_connection_lost 0 exc s))
     = t_calls (transport s) @ (case p_stdin (protocol s) of None \<Rightarrow> [] | Some pipe \<Rightarrow> [Pipe_close pipe])"
    "(p_flow (protocol (pipe_connection_lost 0 exc s)), futures (pipe_connection_lost 0 exc s))
       = wp_connection_lost exc (p_flow (protocol s)) (futures s)"
    "readers (pipe_connection_lost 0 exc s) = readers s"
    by (cases "p_stdin (protocol s)";
        simp add: pipe_connection_lost_def connection_lost_def writer_close_def called_def
          split: prod.splits)+
  have f: "pipe_connection_lost 0 exc s
       = connection_lost exc (case p_stdin (protocol s) of None \<Rightarrow> s | Some pipe \<Rightarrow> writer_close pipe s)"
    by (simp add: pipe_connection_lost_def)
  have o: "p_stdout (protocol s) = Some a \<Longrightarrow>
        cell (readers (pipe_connection_lost 1 None s)) a = feed_eof (cell (readers s) a)
      \<and> cell (readers (pipe_connection_lost 1 (Some e) s)) a = set_exception e (cell (readers s) a)
      \<and> (\<forall>b. b \<noteq> a \<longrightarrow> cell (readers (pipe_connection_lost 1 exc s)) b = cell (readers s) b)"
    by (cases exc) (simp_all add: pipe_connection_lost_def on_reader_def)
  have r: "p_stderr (protocol s) = Some a \<Longrightarrow>
        cell (readers (pipe_connection_lost 2 None s)) a = feed_eof (cell (readers s) a)
      \<and> cell (readers (pipe_connection_lost 2 (Some e) s)) a = set_exception e (cell (readers s) a)
      \<and> (\<forall>b. b \<noteq> a \<longrightarrow> cell (readers (pipe_connection_lost 2 exc s)) b = cell (readers s) b)"
    by (cases exc) (simp_all add: pipe_connection_lost_def on_reader_def)
  have m: "r_terminal x = None \<Longrightarrow> r_terminal (feed_eof x) = Some At_eof
      \<and> r_terminal (set_exception e x) = Some (Errored e)" for x
    by (simp add: feed_eof_def set_exception_def)
  have p: "rp_connection_lost None r = feed_eof r" "rp_connection_lost (Some e) r = set_exception e r"
    by (simp_all add: rp_connection_lost_def)
  from z f o r m p show ?thesis by simp
qed

theorem pipe_closed_by_descriptor_witness:
  "p_stdin (protocol (spawned None [0, 1, 2])) = Some 0
   \<and> t_calls (transport (pipe_connection_lost 0 None (spawned None [0, 1, 2])))
       = t_calls (transport (spawned None [0, 1, 2])) @ [Pipe_close 0]
   \<and> p_stdout (protocol (spawned None [0, 1, 2])) = Some 0
   \<and> r_terminal (cell (readers (spawned None [0, 1, 2])) 0) = None
   \<and> r_terminal (cell (readers (pipe_connection_lost 1 None (spawned None [0, 1, 2]))) 0) = Some At_eof
   \<and> r_terminal (cell (readers (pipe_connection_lost 1 (Some (OSError 32)) (spawned None [0, 1, 2]))) 0)
       = Some (Errored (OSError 32))
   \<and> p_stderr (protocol (spawned None [0, 1, 2])) = Some 1
   \<and> r_terminal (cell (readers (spawned None [0, 1, 2])) 1) = None
   \<and> r_terminal (cell (readers (pipe_connection_lost 2 None (spawned None [0, 1, 2]))) 1) = Some At_eof
   \<and> r_terminal (new_StreamReader 0) = None
   \<and> r_terminal (rp_connection_lost None (new_StreamReader 0)) = Some At_eof
   \<and> r_terminal (rp_connection_lost (Some (OSError 32)) (new_StreamReader 0)) = Some (Errored (OSError 32))"
proof -
  have h: "p_stdin (protocol (spawned None [0, 1, 2])) = Some 0"
    "p_stdout (protocol (spawned None [0, 1, 2])) = Some 0"
    "p_stderr (protocol (spawned None [0, 1, 2])) = Some 1"
    "r_terminal (cell (readers (spawned None [0, 1, 2])) 0) = None"
    "r_terminal (cell (readers (spawned None [0, 1, 2])) 1) = None"
    "r_terminal (new_StreamReader 0) = None"
    by (simp_all add: spawned_stdin spawned_reader_refs spawned_fresh_readers new_StreamReader_def)
  note T = pipe_closed_by_descriptor [of None "spawned None [0, 1, 2]" 0 "OSError 32" "new_StreamReader 0"]
  note U = pipe_closed_by_descriptor [of None "spawned None [0, 1, 2]" 1 "OSError 32" "new_StreamReader 0"]
  from T have "t_calls (transport (pipe_connection_lost 0 None (spawned None [0, 1, 2])))
       = t_calls (transport (spawned None [0, 1, 2]))
         @ (case p_stdin (protocol (spawned None [0, 1, 2])) of None \<Rightarrow> [] | Some pipe \<Rightarrow> [Pipe_close pipe])"
    by blast
  then have c: "t_calls (transport (pipe_connection_lost 0 None (spawned None [0, 1, 2])))
       = t_calls (transport (spawned None [0, 1, 2])) @ [Pipe_close 0]"
    by (simp add: h)
  from T h have o: "r_terminal (cell (readers (pipe_connection_lost 1 None (spawned None [0, 1, 2]))) 0) = Some At_eof"
    "r_terminal (cell (readers (pipe_connection_lost 1 (Some (OSError 32)) (spawned None [0, 1, 2]))) 0)
       = Some (Errored (OSError 32))"
    "r_terminal (rp_connection_lost None (new_StreamReader 0)) = Some At_eof"
    "r_terminal (rp_connection_lost (Some (OSError 32)) (new_StreamReader 0)) = Some (Errored (OSError 32))"
    by blast+
  from U h have e: "r_terminal (cell (readers (pipe_connection_lost 2 None (spawned None [0, 1, 2]))) 1) = Some At_eof"
    by blast
  from h c o e show ?thesis by blast
qed


subsection \<open>The fields of the handle\<close>

lemma run_callback_proc:
  "proc (run_callback v cb s) = (proc s)\<lparr>returncode := v, dead := True\<rparr>"
  by (cases cb) (simp add: run_callback_def set_returncode_def)

lemma fold_run_callback_proc:
  "proc (fold (run_callback v) cbs s) = (if cbs = [] then proc s else (proc s)\<lparr>returncode := v, dead := True\<rparr>)"
proof (induction cbs arbitrary: s)
  case Nil
  show ?case by simp
next
  case (Cons cb cbs)
  show ?case
    by (simp add: Cons.IH run_callback_proc)
qed

lemma set_result_pending:
  assumes "\<not> fut_done (futures s) w"
  shows "fst (set_result w v s) = Ok ()"
    and "futures (snd (set_result w v s)) = settle w (Result v) (futures s)"
    and "transport (snd (set_result w v s)) = transport s"
    and "readers (snd (set_result w v s)) = readers s"
    and "proc (snd (set_result w v s))
          = (if fut_callbacks (slot (futures s) w) = [] then proc s
             else (proc s)\<lparr>returncode := v, dead := True\<rparr>)"
  using assms
  by (simp_all add: set_result_def fut_set_result_def fold_run_callback_conn
      fold_run_callback_proc settle_def)

lemma process_exited_loop_broadcast:
  "p_waiters (protocol s) = ws \<Longrightarrow> distinct ws \<Longrightarrow> \<forall>w\<in>set ws. \<not> fut_done (futures s) w \<Longrightarrow>
   fst (process_exited_loop v s) = Ok () \<and> broadcast_post v ws s (snd (process_exited_loop v s))"
proof (induction ws arbitrary: s)
  case Nil
  then show ?case
    by (simp add: process_exited_loop.simps broadcast_post_def)
next
  case (Cons w rest)
  define s1 where "s1 = s\<lparr>protocol := (protocol s)\<lparr>p_waiters := rest\<rparr>\<rparr>"
  define s2 where "s2 = snd (set_result w v s1)"
  have pend: "\<not> fut_done (futures s1) w"
    using Cons.prems by (simp add: s1_def)
  note sr = set_result_pending [OF pend, of v]
  have ok: "set_result w v s1 = (Ok (), s2)"
    using sr(1) by (simp add: s2_def prod_eq_iff)
  have unfold: "process_exited_loop v s = process_exited_loop v s2"
    using Cons.prems(1) ok
    by (subst process_exited_loop.simps) (simp add: s1_def)
  have p2: "protocol s2 = (protocol s)\<lparr>p_waiters := rest\<rparr>"
    by (simp add: s2_def set_result_protocol s1_def)
  have f2: "futures s2 = settle w (Result v) (futures s)"
    using sr(2) by (simp add: s2_def s1_def)
  have w_notin: "w \<notin> set rest" and d: "distinct rest"
    using Cons.prems(2) by simp_all
  have pend_rest: "\<forall>x\<in>set rest. \<not> fut_done (futures s2) x"
    using Cons.prems(3) w_notin by (auto simp: f2 settle_def fut_done_def)
  have IH: "fst (process_exited_loop v s2) = Ok ()
      \<and> broadcast_post v rest s2 (snd (process_exited_loop v s2))"
    by (rule Cons.IH) (simp_all add: p2 d pend_rest)
  have t2: "transport s2 = transport s" "readers s2 = readers s"
    using sr(3,4) by (simp_all add: s2_def s1_def)
  have pr2: "proc s2 = (if fut_callbacks (slot (futures s) w) = [] then proc s
             else (proc s)\<lparr>returncode := v, dead := True\<rparr>)"
    using sr(5) by (simp add: s2_def s1_def)
  have cb2: "\<And>x. x \<noteq> w \<Longrightarrow> fut_callbacks (slot (futures s2) x) = fut_callbacks (slot (futures s) x)"
    by (simp add: f2 settle_def)
  have cbs: "(\<exists>x\<in>set rest. fut_callbacks (slot (futures s2) x) \<noteq> [])
      = (\<exists>x\<in>set rest. fut_callbacks (slot (futures s) x) \<noteq> [])"
    using w_notin cb2 by (metis)
  from IH have post: "broadcast_post v rest s2 (snd (process_exited_loop v s2))" by simp
  have "broadcast_post v (w # rest) s (snd (process_exited_loop v s2))"
    using post w_notin
    unfolding broadcast_post_def cbs
    by (auto simp: p2 t2 pr2 f2 settle_def)
  with IH unfold show ?case by simp
qed

lemma inv_frame:
  assumes "inv s"
    and "proc s' = proc s" and "protocol s' = protocol s" and "futures s' = futures s"
    and "t_returncode (transport s') = t_returncode (transport s)"
  shows "inv s'"
  using assms unfolding inv_def by simp

lemma inv_settle_other:
  assumes "inv s"
    and "proc s' = proc s" and "t_returncode (transport s') = t_returncode (transport s)"
    and "p_waiters (protocol s') = p_waiters (protocol s)"
    and "p_transport (protocol s') = p_transport (protocol s)"
    and "drain_waiter (p_flow (protocol s')) = None
         \<or> drain_waiter (p_flow (protocol s')) = drain_waiter (p_flow (protocol s))"
    and "futures s' = futures s \<or> (\<exists>w st. w \<notin> set (p_waiters (protocol s))
            \<and> futures s' = settle w st (futures s))"
  shows "inv s'"
proof -
  from assms(7) have f: "fresh (futures s') = fresh (futures s)"
    and g: "\<forall>w\<in>set (p_waiters (protocol s)). slot (futures s') w = slot (futures s) w"
    by (auto simp: settle_def)
  from assms(1-6) f g show ?thesis
    unfolding inv_def fut_done_def by auto
qed

lemma inv_alloc:
  assumes "inv s"
    and "proc s' = proc s" and "t_returncode (transport s') = t_returncode (transport s)"
    and "p_transport (protocol s') = p_transport (protocol s)"
    and "futures s' = snd (Future (futures s))"
    and "(p_waiters (protocol s') = p_waiters (protocol s)
           \<and> drain_waiter (p_flow (protocol s')) = Some (fresh (futures s)))
         \<or> (returncode (proc s) = None
           \<and> p_waiters (protocol s') = p_waiters (protocol s) @ [fresh (futures s)]
           \<and> drain_waiter (p_flow (protocol s')) = drain_waiter (p_flow (protocol s)))"
  shows "inv s'"
proof -
  have f: "fresh (futures s') = Suc (fresh (futures s))"
    and g: "\<forall>w. w < fresh (futures s) \<longrightarrow> slot (futures s') w = slot (futures s) w"
    and h: "fut_state (slot (futures s') (fresh (futures s))) = Pending"
    using assms(5) by (simp_all add: Future_def)
  have lt: "\<forall>w\<in>set (p_waiters (protocol s)). w < fresh (futures s)"
    using assms(1) unfolding inv_def by blast
  from assms(6) show ?thesis
  proof
    assume a: "p_waiters (protocol s') = p_waiters (protocol s)
           \<and> drain_waiter (p_flow (protocol s')) = Some (fresh (futures s))"
    with assms(1-4) f g lt show ?thesis
      unfolding inv_def fut_done_def by (auto simp: less_Suc_eq)
  next
    assume a: "returncode (proc s) = None
           \<and> p_waiters (protocol s') = p_waiters (protocol s) @ [fresh (futures s)]
           \<and> drain_waiter (p_flow (protocol s')) = drain_waiter (p_flow (protocol s))"
    with assms(1-4) f g h lt show ?thesis
      unfolding inv_def fut_done_def by (auto simp: less_Suc_eq)
  qed
qed

lemma wait_resume_state: "snd (wait_resume w s) = s"
  by (simp add: wait_resume_def split: res.splits)

lemma wait_proc: "proc (snd (wait s)) = proc s"
  by (simp add: wait_def wait_resume_state Future_def split: option.splits prod.splits)

lemma inv_wait: "inv s \<Longrightarrow> inv (snd (wait s))"
proof (cases "returncode (proc s)")
  case None
  assume i: "inv s"
  show ?thesis
    by (rule inv_alloc [OF i])
      (simp_all add: wait_def wait_resume_state None Future_def split: prod.splits)
next
  case (Some rc)
  assume "inv s"
  then show ?thesis by (simp add: wait_def Some)
qed

lemma pipe_data_received_inv: "inv s \<Longrightarrow> inv (pipe_data_received fd data s)"
  by (rule inv_frame [where s = s]) (simp_all add: pipe_data_received_def split: option.splits)

lemma pipe_data_received_proc: "proc (pipe_data_received fd data s) = proc s"
  by (simp add: pipe_data_received_def split: option.splits)

lemma writer_close_inv: "inv s \<Longrightarrow> inv (writer_close fd s)"
  by (rule inv_frame [where s = s]) (simp_all add: writer_close_def called_def)

lemma connection_lost_inv: "inv s \<Longrightarrow> inv (connection_lost exc s)"
proof -
  assume i: "inv s"
  have dw: "\<And>w. drain_waiter (p_flow (protocol s)) = Some w \<Longrightarrow> w \<notin> set (p_waiters (protocol s))"
    using i unfolding inv_def by blast
  show ?thesis
  proof (rule inv_settle_other [OF i])
    show "futures (connection_lost exc s) = futures s \<or> (\<exists>w st. w \<notin> set (p_waiters (protocol s))
            \<and> futures (connection_lost exc s) = settle w st (futures s))"
      using dw
      by (cases "drain_waiter (p_flow (protocol s))"; cases exc)
        (auto simp: connection_lost_def wp_connection_lost_def fut_set_result_def
          fut_set_exception_def)
  qed (simp_all add: connection_lost_def wp_connection_lost_def split: option.splits)
qed

lemma connection_lost_proc: "proc (connection_lost exc s) = proc s"
  by (simp add: connection_lost_def split: prod.splits)

lemma pipe_connection_lost_inv: "inv s \<Longrightarrow> inv (pipe_connection_lost fd exc s)"
proof (cases "fd = 0")
  case True
  assume "inv s"
  then show ?thesis
    by (simp add: pipe_connection_lost_def True connection_lost_inv writer_close_inv
        split: option.splits)
next
  case False
  assume i: "inv s"
  show ?thesis
    by (rule inv_frame [OF i]) (simp_all add: pipe_connection_lost_def False split: option.splits)
qed

lemma pipe_connection_lost_proc: "proc (pipe_connection_lost fd exc s) = proc s"
  by (simp add: pipe_connection_lost_def connection_lost_proc writer_close_def
      split: option.splits)

lemma pause_inv: "inv s \<Longrightarrow> inv (deliver Pause_writing s)"
  by (rule inv_settle_other [where s = s]) (simp_all add: pause_writing_def)

lemma resume_inv: "inv s \<Longrightarrow> inv (deliver Resume_writing s)"
proof -
  assume i: "inv s"
  have dw: "\<And>w. drain_waiter (p_flow (protocol s)) = Some w \<Longrightarrow> w \<notin> set (p_waiters (protocol s))"
    using i unfolding inv_def by blast
  show ?thesis
  proof (rule inv_settle_other [OF i])
    show "futures (deliver Resume_writing s) = futures s \<or> (\<exists>w st. w \<notin> set (p_waiters (protocol s))
            \<and> futures (deliver Resume_writing s) = settle w st (futures s))"
      using dw
      by (cases "drain_waiter (p_flow (protocol s))")
        (auto simp: resume_writing_def fut_set_result_def)
  qed (simp_all add: resume_writing_def split: option.splits)
qed

lemma flow_events_proc:
  "proc (deliver Pause_writing s) = proc s" "proc (deliver Resume_writing s) = proc s"
  by (simp_all split: prod.splits)

lemma exit_when_exited:
  assumes i: "inv s" and r: "returncode (proc s) = Some r"
  shows "deliver (Process_exited rc) s = s"
proof -
  have "t_returncode (transport s) = Some r" "p_waiters (protocol s) = []" "p_transport (protocol s)"
    using i r unfolding inv_def by simp_all
  then show ?thesis
    by (simp add: cache_returncode_def process_exited_def process_exited_loop.simps)
qed

lemma exit_when_running:
  assumes i: "inv s" and r: "returncode (proc s) = None"
  shows "broadcast_post (Some rc) (p_waiters (protocol s))
           (s\<lparr>transport := (transport s)\<lparr>t_returncode := Some rc\<rparr>\<rparr>)
           (deliver (Process_exited rc) s)"
proof -
  define s1 where "s1 = s\<lparr>transport := (transport s)\<lparr>t_returncode := Some rc\<rparr>\<rparr>"
  have t: "t_returncode (transport s) = None" and pt: "p_transport (protocol s)"
    and d: "distinct (p_waiters (protocol s))"
    and p: "\<forall>w\<in>set (p_waiters (protocol s)). \<not> fut_done (futures s) w"
    using i r unfolding inv_def by auto
  have c: "cache_returncode rc s = s1"
    by (simp add: cache_returncode_def t s1_def)
  have e: "process_exited s1 = process_exited_loop (Some rc) s1"
    by (simp add: process_exited_def s1_def pt get_returncode_def)
  have "broadcast_post (Some rc) (p_waiters (protocol s)) s1 (snd (process_exited_loop (Some rc) s1))"
    using process_exited_loop_broadcast [of s1 "p_waiters (protocol s)" "Some rc"] d p
    by (simp add: s1_def)
  with c e show ?thesis
    unfolding s1_def by simp
qed

lemma broadcast_postD:
  assumes "broadcast_post v ws s s'"
  shows "protocol s' = (protocol s)\<lparr>p_waiters := []\<rparr>"
    and "transport s' = transport s"
    and "readers s' = readers s"
    and "fresh (futures s') = fresh (futures s)"
    and "slot (futures s') w
           = (if w \<in> set ws then (slot (futures s) w)\<lparr>fut_state := Result v\<rparr>
              else slot (futures s) w)"
    and "proc s' = (if \<exists>w\<in>set ws. fut_callbacks (slot (futures s) w) \<noteq> []
                   then (proc s)\<lparr>returncode := v, dead := True\<rparr> else proc s)"
  using assms unfolding broadcast_post_def by blast+

lemma exit_proc:
  assumes i: "inv s"
  shows "proc (deliver (Process_exited rc) s)
           = (if returncode (proc s) = None
              then (proc s)\<lparr>returncode := Some rc, dead := True\<rparr> else proc s)"
proof (cases "returncode (proc s)")
  case None
  have ex: "\<exists>w\<in>set (p_waiters (protocol s)). fut_callbacks (slot (futures s) w) \<noteq> []"
    using i None unfolding inv_def by blast
  have "proc (deliver (Process_exited rc) s) = (proc s)\<lparr>returncode := Some rc, dead := True\<rparr>"
    using broadcast_postD(6) [OF exit_when_running [OF i None, of rc]] ex
    by (simp del: deliver.simps)
  then show ?thesis using None by (simp del: deliver.simps)
next
  case (Some r)
  show ?thesis
    unfolding exit_when_exited [OF i Some] using Some by simp
qed

lemma exit_inv:
  assumes i: "inv s"
  shows "inv (deliver (Process_exited rc) s)"
proof (cases "returncode (proc s)")
  case None
  define s' where "s' = deliver (Process_exited rc) s"
  note b = broadcast_postD [OF exit_when_running [OF i None, of rc], folded s'_def]
  have p: "proc s' = (proc s)\<lparr>returncode := Some rc, dead := True\<rparr>"
    using exit_proc [OF i, of rc] None by (simp add: s'_def del: deliver.simps)
  have pt: "p_transport (protocol s)"
    and dw: "\<forall>w. drain_waiter (p_flow (protocol s)) = Some w \<longrightarrow> w < fresh (futures s)"
    using i unfolding inv_def by blast+
  have 1: "returncode (proc s') = t_returncode (transport s')"
    by (simp add: p b(2))
  have 2: "dead (proc s') = (returncode (proc s') \<noteq> None)"
    by (simp add: p)
  have 3: "p_transport (protocol s')" "p_waiters (protocol s') = []"
    "drain_waiter (p_flow (protocol s')) = drain_waiter (p_flow (protocol s))"
    by (simp_all add: b(1) pt)
  have 4: "fresh (futures s') = fresh (futures s)"
    by (simp add: b(4))
  have "inv s'"
    unfolding inv_def using 1 2 3 4 dw p by simp
  then show ?thesis by (simp only: s'_def)
next
  case (Some r)
  show ?thesis
    unfolding exit_when_exited [OF i Some] by (rule i)
qed

lemma deliver_inv: "inv s \<Longrightarrow> inv (deliver ev s)"
proof (cases ev)
  case (Process_exited rc)
  assume "inv s"
  then show ?thesis unfolding Process_exited by (rule exit_inv)
next
  case Pause_writing
  assume "inv s"
  then show ?thesis unfolding Pause_writing by (rule pause_inv)
next
  case Resume_writing
  assume "inv s"
  then show ?thesis unfolding Resume_writing by (rule resume_inv)
qed (simp_all add: pipe_data_received_inv pipe_connection_lost_inv)

lemma deliver_proc:
  assumes "inv s"
  shows "proc (deliver ev s)
     = (case ev of
          Process_exited rc \<Rightarrow>
            (if returncode (proc s) = None
             then (proc s)\<lparr>returncode := Some rc, dead := True\<rparr> else proc s)
        | _ \<Rightarrow> proc s)"
proof (cases ev)
  case (Process_exited rc)
  show ?thesis unfolding Process_exited exit_proc [OF assms] by simp
next
  case Pause_writing
  show ?thesis unfolding Pause_writing flow_events_proc by simp
next
  case Resume_writing
  show ?thesis unfolding Resume_writing flow_events_proc by simp
qed (simp_all add: pipe_data_received_proc pipe_connection_lost_proc)

lemma writer_write_inv: "inv s \<Longrightarrow> inv (writer_write fd data s)"
  by (rule inv_frame [where s = s]) (simp_all add: writer_write_def called_def)

lemma writer_drain_inv: "inv s \<Longrightarrow> inv (snd (writer_drain s))"
proof (cases "paused (p_flow (protocol s)) \<and> drain_waiter (p_flow (protocol s)) = None")
  case True
  assume i: "inv s"
  show ?thesis
    by (rule inv_alloc [OF i]) (simp_all add: writer_drain_def drain_def True Future_def)
next
  case False
  assume i: "inv s"
  have "snd (writer_drain s) = s"
    using False by (auto simp: writer_drain_def drain_def split: option.splits)
  with i show ?thesis by simp
qed

lemma writer_drain_proc: "proc (snd (writer_drain s)) = proc s"
  by (simp add: writer_drain_def split: prod.splits)

lemma feed_stdin_cases:
  assumes "stdin (proc s) = Some fd"
  shows "snd (feed_stdin input s) = snd (writer_drain (writer_write fd input s))
       \<or> snd (feed_stdin input s) = writer_close fd (snd (writer_drain (writer_write fd input s)))"
proof -
  obtain r s2 where d: "writer_drain (writer_write fd input s) = (r, s2)"
    by (cases "writer_drain (writer_write fd input s)")
  show ?thesis
  proof (cases r)
    case (Err e)
    then show ?thesis by (simp add: feed_stdin_def assms d)
  next
    case (Ok v)
    then show ?thesis by (cases v) (simp_all add: feed_stdin_def assms d)
  qed
qed

lemma feed_stdin_inv:
  assumes i: "inv s"
  shows "inv (snd (feed_stdin input s))"
proof (cases "stdin (proc s)")
  case None
  then show ?thesis by (simp add: feed_stdin_def i)
next
  case (Some fd)
  have d: "inv (snd (writer_drain (writer_write fd input s)))"
    by (rule writer_drain_inv) (rule writer_write_inv [OF i])
  from feed_stdin_cases [OF Some, of input] show ?thesis
  proof
    assume "snd (feed_stdin input s) = snd (writer_drain (writer_write fd input s))"
    with d show ?thesis by simp
  next
    assume "snd (feed_stdin input s) = writer_close fd (snd (writer_drain (writer_write fd input s)))"
    with writer_close_inv [OF d] show ?thesis by simp
  qed
qed

lemma feed_stdin_proc: "proc (snd (feed_stdin input s)) = proc s"
proof (cases "stdin (proc s)")
  case None
  then show ?thesis by (simp add: feed_stdin_def)
next
  case (Some fd)
  have d: "proc (snd (writer_drain (writer_write fd input s))) = proc s"
    by (simp add: writer_drain_proc writer_write_def)
  from feed_stdin_cases [OF Some, of input] show ?thesis
  proof
    assume "snd (feed_stdin input s) = snd (writer_drain (writer_write fd input s))"
    with d show ?thesis by simp
  next
    assume "snd (feed_stdin input s) = writer_close fd (snd (writer_drain (writer_write fd input s)))"
    with d show ?thesis by (simp add: writer_close_def)
  qed
qed

lemma feed_stdin_resume_inv: "inv s \<Longrightarrow> inv (snd (feed_stdin_resume w s))"
  by (simp add: feed_stdin_resume_def writer_close_inv split: res.splits option.splits)

lemma feed_stdin_resume_proc: "proc (snd (feed_stdin_resume w s)) = proc s"
  by (simp add: feed_stdin_resume_def writer_close_def split: res.splits option.splits)

lemma read_stream_proc: "proc (snd (read_stream fd s)) = proc s"
  by (simp add: read_stream_def Let_def split: option.splits terminal.splits)

lemma read_stream_inv: "inv s \<Longrightarrow> inv (snd (read_stream fd s))"
  by (rule inv_frame [where s = s])
    (simp_all add: read_stream_def Let_def called_def split: option.splits terminal.splits)

lemma quiet_refl: "quiet s s"
  by (simp add: quiet_def)

lemma quiet_trans: "quiet s s1 \<Longrightarrow> quiet s1 s2 \<Longrightarrow> quiet s s2"
  by (simp add: quiet_def)

lemma quiet_wait: "quiet s (snd (wait s))"
  by (simp add: quiet_def inv_wait wait_proc)

lemma quiet_wait_resume: "quiet s (snd (wait_resume w s))"
  by (simp add: wait_resume_state quiet_refl)

lemma quiet_feed_stdin: "quiet s (snd (feed_stdin input s))"
  by (simp add: quiet_def feed_stdin_inv feed_stdin_proc)

lemma quiet_feed_stdin_resume: "quiet s (snd (feed_stdin_resume w s))"
  by (simp add: quiet_def feed_stdin_resume_inv feed_stdin_resume_proc)

lemma quiet_read_stream: "quiet s (snd (read_stream fd s))"
  by (simp add: quiet_def read_stream_inv read_stream_proc)

lemma quiet_noop: "quiet s (snd (noop s))"
  by (simp add: noop_def quiet_refl)

lemma communicate_wait_state: "snd (communicate_wait out err r) = snd r"
  by (cases r; cases "fst r") (simp_all add: communicate_wait_def)

lemma quiet_communicate_join: "quiet s (snd (communicate_join a b c s))"
proof (cases "gather (outcome a) (outcome b) (outcome c)")
  case None
  then show ?thesis by (simp add: communicate_join_def quiet_refl)
next
  case (Some r)
  then show ?thesis
    by (cases r)
      (auto simp: communicate_join_def communicate_wait_state quiet_wait quiet_refl)
qed

lemma quiet_communicate: "quiet s (snd (communicate input s))"
proof -
  define r1 where "r1 = (if truthy input then feed_stdin (the input) s else noop s)"
  define r2 where "r2 = (if stdout (proc (snd r1)) \<noteq> None then read_stream 1 (snd r1) else noop (snd r1))"
  define r3 where "r3 = (if stderr (proc (snd r2)) \<noteq> None then read_stream 2 (snd r2) else noop (snd r2))"
  have c: "communicate input s = communicate_join (fst r1) (fst r2) (fst r3) (snd r3)"
    by (simp add: communicate_def r1_def r2_def r3_def split_beta Let_def)
  have 1: "quiet s (snd r1)"
    by (simp add: r1_def quiet_feed_stdin quiet_noop)
  have 2: "quiet (snd r1) (snd r2)"
    by (simp add: r2_def quiet_read_stream quiet_noop)
  have 3: "quiet (snd r2) (snd r3)"
    by (simp add: r3_def quiet_read_stream quiet_noop)
  have 4: "quiet (snd r3) (snd (communicate input s))"
    unfolding c by (rule quiet_communicate_join)
  from 1 2 3 4 show ?thesis by (blast intro: quiet_trans)
qed

lemma quiet_stdin_resume: "quiet s (snd (stdin_resume a s))"
  by (cases a) (simp_all add: quiet_refl quiet_feed_stdin_resume)

lemma quiet_reader_resume: "quiet s (snd (reader_resume a s))"
  by (cases a) (simp_all add: quiet_refl quiet_read_stream)

lemma quiet_communicate_resume: "quiet s (snd (communicate_resume pc s))"
proof (cases pc)
  case (Gathering a b c)
  define r1 where "r1 = stdin_resume a s"
  define r2 where "r2 = reader_resume b (snd r1)"
  define r3 where "r3 = reader_resume c (snd r2)"
  have c: "communicate_resume pc s = communicate_join (fst r1) (fst r2) (fst r3) (snd r3)"
    by (simp add: Gathering r1_def r2_def r3_def split_beta Let_def)
  have "quiet s (snd r1)" "quiet (snd r1) (snd r2)" "quiet (snd r2) (snd r3)"
    by (simp_all add: r1_def r2_def r3_def quiet_stdin_resume quiet_reader_resume)
  moreover have "quiet (snd r3) (snd (communicate_resume pc s))"
    unfolding c by (rule quiet_communicate_join)
  ultimately show ?thesis by (blast intro: quiet_trans)
next
  case (Waiting w out err)
  then show ?thesis
    by (simp add: communicate_wait_state quiet_wait_resume)
qed

lemma quiet_resume_task: "quiet s (snd (resume_task t s))"
proof (cases t)
  case (Wait_task r)
  then show ?thesis
    by (cases r) (simp_all add: quiet_refl split_beta quiet_wait_resume)
next
  case (Communicate_task r)
  then show ?thesis
    by (cases r) (simp_all add: quiet_refl split_beta quiet_communicate_resume)
qed

lemma quiet_resume_all: "quiet s (snd (resume_all ts s))"
proof (induction ts arbitrary: s)
  case Nil
  show ?case by (simp add: quiet_refl)
next
  case (Cons t ts)
  have "quiet s (snd (resume_task t s))" by (rule quiet_resume_task)
  moreover have "quiet (snd (resume_task t s)) (snd (resume_all ts (snd (resume_task t s))))"
    by (rule Cons.IH)
  ultimately show ?case
    by (simp add: split_beta) (blast intro: quiet_trans)
qed

lemma quiet_signals:
  "quiet s (snd (send_signal n s))" "quiet s (snd (terminate s))" "quiet s (snd (kill s))"
  "quiet s (snd (close s))"
proof -
  have f: "\<And>c. quiet s (s\<lparr>transport := called c (transport s)\<rparr>)"
    unfolding quiet_def
    by (auto intro: inv_frame [where s = s] simp: called_def)
  show "quiet s (snd (send_signal n s))" "quiet s (snd (terminate s))" "quiet s (snd (kill s))"
    "quiet s (snd (close s))"
    by (simp_all add: send_signal_def terminate_def kill_def close_def f quiet_refl
        split: res.splits)
qed

lemma act_step:
  assumes i: "inv (snd c)"
  shows "inv (snd (act a c))"
    and "proc (snd (act a c))
          = (case exit_of a of
               Some rc \<Rightarrow> (if returncode (proc (snd c)) = None
                           then (proc (snd c))\<lparr>returncode := Some rc, dead := True\<rparr>
                           else proc (snd c))
             | None \<Rightarrow> proc (snd c))"
proof -
  obtain ts s where c: "c = (ts, s)" by (cases c)
  have i': "inv s" using i c by simp
  have q: "exit_of a = None \<Longrightarrow> quiet s (snd (act a c))"
  proof (cases a)
    case (Call op)
    show ?thesis
      by (cases op)
        (simp_all add: Call c split_beta quiet_wait quiet_communicate quiet_signals)
  next
    case (Event ev)
    assume "exit_of a = None"
    then have "proc (deliver ev s) = proc s"
      using deliver_proc [OF i', of ev] Event by (cases ev) simp_all
    then have "quiet s (deliver ev s)"
      by (simp add: quiet_def deliver_inv)
    moreover have "quiet (deliver ev s) (snd (resume_all ts (deliver ev s)))"
      by (rule quiet_resume_all)
    ultimately show ?thesis
      unfolding Event c by (simp del: deliver.simps) (blast intro: quiet_trans)
  qed
  have e: "exit_of a = Some rc \<Longrightarrow>
      inv (snd (act a c)) \<and> proc (snd (act a c))
        = (if returncode (proc s) = None then (proc s)\<lparr>returncode := Some rc, dead := True\<rparr>
           else proc s)" for rc
  proof -
    assume "exit_of a = Some rc"
    then have a: "a = Event (Process_exited rc)"
      by (cases a rule: exit_of.cases) simp_all
    have q2: "quiet (deliver (Process_exited rc) s) (snd (resume_all ts (deliver (Process_exited rc) s)))"
      by (rule quiet_resume_all)
    from q2 exit_inv [OF i', of rc] exit_proc [OF i', of rc] show ?thesis
      unfolding a c quiet_def by (simp del: deliver.simps)
  qed
  show "inv (snd (act a c))"
    using q e i' by (cases "exit_of a") (auto simp: quiet_def)
  show "proc (snd (act a c))
          = (case exit_of a of
               Some rc \<Rightarrow> (if returncode (proc (snd c)) = None
                           then (proc (snd c))\<lparr>returncode := Some rc, dead := True\<rparr>
                           else proc (snd c))
             | None \<Rightarrow> proc (snd c))"
    using q e c by (cases "exit_of a") (auto simp: quiet_def)
qed

lemma inv_fold_act: "inv (snd c) \<Longrightarrow> inv (snd (fold act acts c))"
  by (induction acts arbitrary: c) (simp_all add: act_step(1))

lemma run_append: "run (acts @ later) s = fold act later (run acts s)"
  by (simp add: run_def)

lemma inv_run: "inv s \<Longrightarrow> inv (snd (run acts s))"
  by (simp add: run_def inv_fold_act)

lemma connection_made_protocol:
  "p_transport (protocol (snd (connection_made c)))"
  "p_waiters (protocol (snd (connection_made c))) = p_waiters (protocol c)"
  "p_flow (protocol (snd (connection_made c))) = p_flow (protocol c)"
  "fresh (futures (snd (connection_made c))) = fresh (futures c)"
  by (simp_all add: connection_made_def Let_def new_reader_def fut_set_result_def settle_def
      split: prod.splits option.splits)

lemma inv_Popen:
  assumes "p_transport (protocol c)" "p_waiters (protocol c) = []"
    "drain_waiter (p_flow (protocol c)) = None"
  shows "inv (Popen c)"
proof (cases "t_returncode (transport c)")
  case None
  with assms show ?thesis
    by (simp add: inv_def Popen_def Let_def get_returncode_def Future_def add_done_callback_def
        fut_done_def)
next
  case (Some r)
  with assms show ?thesis
    by (simp add: inv_def Popen_def Let_def get_returncode_def)
qed

lemma inv_create: "inv (create_subprocess_exec t lim)"
  unfolding create_subprocess_exec_def
  by (rule inv_Popen)
    (simp_all add: connection_made_protocol SubprocessStreamProtocol_def
      WriteSubprocessPipeStreamProto_def split: prod.splits)

lemma proc_create:
  "pid (proc (create_subprocess_exec t lim)) = t_pid t"
  "returncode (proc (create_subprocess_exec t lim)) = t_returncode t"
  by (simp_all add: create_subprocess_exec_def Popen_proc connection_made_transport
      SubprocessStreamProtocol_transport)

lemma fold_act_pid:
  "inv (snd c) \<Longrightarrow> pid (proc (snd (fold act acts c))) = pid (proc (snd c))"
proof (induction acts arbitrary: c)
  case Nil
  show ?case by simp
next
  case (Cons a acts)
  have "pid (proc (snd (act a c))) = pid (proc (snd c))"
    using act_step(2) [OF Cons.prems, of a] by (simp split: option.splits)
  with Cons.IH [OF act_step(1) [OF Cons.prems, of a]] show ?case by simp
qed

lemma fold_act_settled:
  "inv (snd c) \<Longrightarrow> returncode (proc (snd c)) \<noteq> None \<Longrightarrow>
   proc (snd (fold act acts c)) = proc (snd c)"
proof (induction acts arbitrary: c)
  case Nil
  show ?case by simp
next
  case (Cons a acts)
  have p: "proc (snd (act a c)) = proc (snd c)"
    using act_step(2) [OF Cons.prems(1), of a] Cons.prems(2) by (simp split: option.splits)
  with Cons.IH [OF act_step(1) [OF Cons.prems(1), of a]] Cons.prems(2) show ?case by simp
qed

text \<open>
  C8.  Take a handle made by \<open>create_subprocess_exec\<close> and any sequence of operations
  on it and events of the transport.  The \<open>pid\<close> is always the transport's.  The exit
  code starts as the transport's, is always the code the transport has cached (so it is
  absent while the process runs), and once present it is the same after any further
  operations and events.  The dead flag is set exactly when the exit code is present;
  once set it stays set; and a handle that is not dead becomes dead by one more action
  exactly when that action is a process-exited event, which sets the exit code to the
  code of that exit.
\<close>

theorem handle_fields_change_once:
  "pid (proc (snd (run acts (create_subprocess_exec t lim)))) = t_pid t
   \<and> returncode (proc (create_subprocess_exec t lim)) = t_returncode t
   \<and> dead (proc (snd (run acts (create_subprocess_exec t lim))))
       = (returncode (proc (snd (run acts (create_subprocess_exec t lim)))) \<noteq> None)
   \<and> returncode (proc (snd (run acts (create_subprocess_exec t lim))))
       = t_returncode (transport (snd (run acts (create_subprocess_exec t lim))))
   \<and> (returncode (proc (snd (run acts (create_subprocess_exec t lim)))) \<noteq> None \<longrightarrow>
        returncode (proc (snd (run (acts @ later) (create_subprocess_exec t lim))))
          = returncode (proc (snd (run acts (create_subprocess_exec t lim)))))
   \<and> (dead (proc (snd (run acts (create_subprocess_exec t lim)))) \<longrightarrow>
        dead (proc (snd (run (acts @ later) (create_subprocess_exec t lim)))))
   \<and> (\<not> dead (proc (snd (run acts (create_subprocess_exec t lim)))) \<longrightarrow>
        (dead (proc (snd (run (acts @ [a]) (create_subprocess_exec t lim))))
           = (\<exists>rc. a = Event (Process_exited rc)))
      \<and> (\<forall>rc. a = Event (Process_exited rc) \<longrightarrow>
            returncode (proc (snd (run (acts @ [a]) (create_subprocess_exec t lim)))) = Some rc))"
proof -
  define s0 where "s0 = create_subprocess_exec t lim"
  define c where "c = run acts s0"
  have i0: "inv (snd ([] :: task list, s0))"
    by (simp add: s0_def inv_create)
  have i: "inv (snd c)"
    unfolding c_def by (rule inv_run) (simp add: s0_def inv_create)
  have 1: "pid (proc (snd c)) = t_pid t"
    using fold_act_pid [OF i0, of acts] by (simp add: c_def run_def s0_def proc_create)
  have 2: "returncode (proc s0) = t_returncode t"
    by (simp add: s0_def proc_create)
  have 3: "dead (proc (snd c)) = (returncode (proc (snd c)) \<noteq> None)"
    and 4: "returncode (proc (snd c)) = t_returncode (transport (snd c))"
    using i unfolding inv_def by blast+
  have 5: "returncode (proc (snd c)) \<noteq> None \<Longrightarrow>
            proc (snd (run (acts @ later) s0)) = proc (snd c)"
    unfolding run_append c_def [symmetric] by (rule fold_act_settled [OF i])
  have st: "proc (snd (run (acts @ [a]) s0))
          = (case exit_of a of
               Some rc \<Rightarrow> (if returncode (proc (snd c)) = None
                           then (proc (snd c))\<lparr>returncode := Some rc, dead := True\<rparr>
                           else proc (snd c))
             | None \<Rightarrow> proc (snd c))"
    unfolding run_append c_def [symmetric] using act_step(2) [OF i, of a] by simp
  have ex: "(\<exists>rc. a = Event (Process_exited rc)) = (exit_of a \<noteq> None)"
    by (cases a rule: exit_of.cases) simp_all
  have 6: "\<not> dead (proc (snd c)) \<Longrightarrow>
        (dead (proc (snd (run (acts @ [a]) s0))) = (\<exists>rc. a = Event (Process_exited rc)))
      \<and> (\<forall>rc. a = Event (Process_exited rc) \<longrightarrow>
            returncode (proc (snd (run (acts @ [a]) s0))) = Some rc)"
    unfolding ex st using 3 by (cases "exit_of a") auto
  from 1 2 3 4 5 6 show ?thesis
    unfolding c_def s0_def by simp
qed

theorem handle_fields_change_once_witness:
  "\<not> dead (proc (snd (run [] (spawned None []))))
   \<and> \<not> dead (proc (snd (run ([] @ [Call Op_wait]) (spawned None []))))
   \<and> dead (proc (snd (run ([Call Op_wait] @ [Event (Process_exited 3)]) (spawned None []))))
   \<and> returncode (proc (snd (run ([Call Op_wait] @ [Event (Process_exited 3)]) (spawned None []))))
       = Some 3
   \<and> returncode (proc (snd (run (([Call Op_wait] @ [Event (Process_exited 3)])
          @ [Event (Process_exited 5), Call Op_kill]) (spawned None [])))) = Some 3
   \<and> dead (proc (snd (run (([Call Op_wait] @ [Event (Process_exited 3)])
          @ [Event (Process_exited 5), Call Op_kill]) (spawned None []))))"
proof -
  have d0: "\<not> dead (proc (snd (run [] (spawned None []))))"
    by (simp add: run_def spawned_dead)
  note A = handle_fields_change_once [of "[]" "fake_transport None []" 65536 "[]" "Call Op_wait",
      folded spawned_def]
  from A d0 have d1: "\<not> dead (proc (snd (run ([] @ [Call Op_wait]) (spawned None []))))"
    by blast
  note B = handle_fields_change_once [of "[Call Op_wait]" "fake_transport None []" 65536 "[]"
      "Event (Process_exited 3)", folded spawned_def]
  from B d1 have d2: "dead (proc (snd (run ([Call Op_wait] @ [Event (Process_exited 3)]) (spawned None []))))"
    and r2: "returncode (proc (snd (run ([Call Op_wait] @ [Event (Process_exited 3)]) (spawned None []))))
       = Some 3"
    by auto
  note C = handle_fields_change_once [of "[Call Op_wait] @ [Event (Process_exited 3)]"
      "fake_transport None []" 65536 "[Event (Process_exited 5), Call Op_kill]" "Call Op_kill",
      folded spawned_def]
  from C d2 r2 have r3: "returncode (proc (snd (run (([Call Op_wait] @ [Event (Process_exited 3)])
          @ [Event (Process_exited 5), Call Op_kill]) (spawned None [])))) = Some 3"
    and d3: "dead (proc (snd (run (([Call Op_wait] @ [Event (Process_exited 3)])
          @ [Event (Process_exited 5), Call Op_kill]) (spawned None []))))"
    by auto
  from d0 d1 d2 r2 r3 d3 show ?thesis by blast
qed

end
